(* ===== verification/Prelude.thy ===== *)
theory Prelude
  imports Main "HOL-Library.Sublist"
begin

text \<open>
  Shared vocabulary of the recipe-finder development: the names of the model's types,
  the collections of facts that evaluate the model on concrete inputs, and the generic
  lemmas on lists and options that the component theories share.

  A JavaScript string of \<^verbatim>\<open>src/src/RecipeFinder.jsx\<close> is modelled by the
  \<open>string\<close> (a list of 8-bit \<open>char\<close>s) holding its UTF-8 encoding; JavaScript
  truthiness of a string is non-emptiness, and \<open>null\<close>/\<open>undefined\<close> of an
  optional field is \<open>None\<close>.
\<close>

named_theorems recipe_eval
  "definitions unfolded to evaluate the model on a concrete input"

type_synonym js_string = string
type_synonym url = string
type_synonym meal_id = string

text \<open>JavaScript truthiness of a string value, and the \<open>a || b\<close> default on strings.\<close>

definition truthy :: "js_string \<Rightarrow> bool" where
  "truthy s \<longleftrightarrow> s \<noteq> []"

definition js_or :: "js_string option \<Rightarrow> js_string \<Rightarrow> js_string" where
  "js_or v d = (case v of Some s \<Rightarrow> if truthy s then s else d | None \<Rightarrow> d)"

text \<open>\<^verbatim>\<open>xs.filter(Boolean)\<close> on a list of objects or \<open>null\<close>s: keeps the objects.\<close>

primrec filter_Boolean :: "'a option list \<Rightarrow> 'a list" where
  "filter_Boolean [] = []"
| "filter_Boolean (x # xs) = (case x of None \<Rightarrow> filter_Boolean xs | Some y \<Rightarrow> y # filter_Boolean xs)"

declare truthy_def [recipe_eval] js_or_def [recipe_eval]

lemma js_or_truthy [simp]: "truthy (js_or v d) \<longleftrightarrow> truthy d \<or> (\<exists>s. v = Some s \<and> truthy s)"
  by (auto simp: js_or_def split: option.splits)

lemma js_or_cases: "js_or v d = d \<or> (\<exists>s. v = Some s \<and> js_or v d = s \<and> truthy s)"
  by (auto simp: js_or_def split: option.splits)

lemma set_filter_Boolean [simp]: "set (filter_Boolean xs) = {y. Some y \<in> set xs}"
  by (induction xs) (auto split: option.splits)

lemma filter_Boolean_map_Some [simp]: "filter_Boolean (map Some xs) = xs"
  by (induction xs) auto

lemma filter_Boolean_append [simp]:
  "filter_Boolean (xs @ ys) = filter_Boolean xs @ filter_Boolean ys"
  by (induction xs) (auto split: option.splits)

lemma length_filter_Boolean_le: "length (filter_Boolean xs) \<le> length xs"
  by (induction xs) (auto split: option.splits)

lemma filter_Boolean_map_map_option:
  "filter_Boolean (map (map_option f) xs) = map f (filter_Boolean xs)"
  by (induction xs) (auto split: option.splits)

text \<open>
  Distinctness of a key along a list that is a subsequence of another one, and the
  key set of a filtered list: used for the \<open>idMeal\<close> keys of meals in several theories.
\<close>

lemma distinct_map_take [intro]: "distinct (map f xs) \<Longrightarrow> distinct (map f (take n xs))"
  by (metis distinct_take take_map)

lemma subseq_take_left [intro]: "subseq (take n xs) xs"
  by (simp add: prefix_imp_subseq take_is_prefix)

lemma find_append: "find P (xs @ ys) = (case find P xs of None \<Rightarrow> find P ys | Some x \<Rightarrow> Some x)"
  by (induction xs) auto

lemma ex_from_split:
  "i \<le> n \<Longrightarrow> (\<exists>j. i \<le> j \<and> j \<le> n \<and> P j) \<longleftrightarrow> P i \<or> (\<exists>j. Suc i \<le> j \<and> j \<le> n \<and> P j)"
  by (metis Suc_leD le_antisym le_refl not_less_eq_eq)

lemma set_take_subset_set [intro]: "x \<in> set (take n xs) \<Longrightarrow> x \<in> set xs"
  by (meson in_set_takeD)

lemma length_takeWhile_less: "x \<in> set xs \<Longrightarrow> \<not> P x \<Longrightarrow> length (takeWhile P xs) < length xs"
  by (induction xs) auto

end
