(* ===== verification/JS_Builtins.thy ===== *)
theory JS_Builtins
  imports Prelude
begin

text \<open>
  The ECMAScript built-ins that \<^verbatim>\<open>fetchRecipes\<close> calls, on the byte-string model
  of JavaScript strings: \<^verbatim>\<open>String.prototype.split\<close> with a one-character
  separator, \<^verbatim>\<open>trim\<close> (ASCII white space), \<^verbatim>\<open>toLowerCase\<close> (ASCII letters),
  \<^verbatim>\<open>includes\<close>, \<^verbatim>\<open>Array.prototype.join\<close>, \<^verbatim>\<open>encodeURIComponent\<close> with the
  percent-decoding a server applies to it, and \<^verbatim>\<open>Promise.all\<close> over results that
  are either a rejection or a value. They model the runtime, not the repository, and
  are stated with the lemmas the component proofs use: split/join round trips, trim
  idempotence, the search loop of \<open>includes\<close> against \<open>sublist\<close>, the
  encode/decode round trip and the URL-safety of encoded text.
\<close>

subsection \<open>split and join\<close>

fun js_split :: "char \<Rightarrow> js_string \<Rightarrow> js_string list" where
  "js_split d [] = [[]]"
| "js_split d (c # cs) =
     (let ps = js_split d cs in if c = d then [] # ps else (c # hd ps) # tl ps)"

fun js_join :: "char \<Rightarrow> js_string list \<Rightarrow> js_string" where
  "js_join d [] = []"
| "js_join d [p] = p"
| "js_join d (p # q # ps) = p @ d # js_join d (q # ps)"

subsection \<open>trim\<close>

text \<open>WhiteSpace and LineTerminator code points below 128: TAB, LF, VT, FF, CR, SP.\<close>

definition is_js_space :: "char \<Rightarrow> bool" where
  "is_js_space c \<longleftrightarrow> of_char c \<in> {9, 10, 11, 12, 13, 32 :: nat}"

definition js_trim :: "js_string \<Rightarrow> js_string" where
  "js_trim s = rev (dropWhile is_js_space (rev (dropWhile is_js_space s)))"

subsection \<open>toLowerCase and includes\<close>

definition js_lower_char :: "char \<Rightarrow> char" where
  "js_lower_char c =
     (let n = of_char c :: nat in if 65 \<le> n \<and> n \<le> 90 then char_of (n + 32) else c)"

definition js_toLowerCase :: "js_string \<Rightarrow> js_string" where
  "js_toLowerCase s = map js_lower_char s"

text \<open>\<^verbatim>\<open>hay.includes(needle)\<close>: the search of StringIndexOf, position by position.\<close>

fun js_includes :: "js_string \<Rightarrow> js_string \<Rightarrow> bool" where
  "js_includes [] needle \<longleftrightarrow> needle = []"
| "js_includes (h # hs) needle \<longleftrightarrow> prefix needle (h # hs) \<or> js_includes hs needle"

subsection \<open>encodeURIComponent\<close>

text \<open>
  The characters \<^verbatim>\<open>encodeURIComponent\<close> leaves alone: ASCII letters, digits and
  \<^verbatim>\<open>- _ . ! ~ * ' ( )\<close>. Every other UTF-8 byte becomes \<^verbatim>\<open>%XY\<close> with upper-case
  hexadecimal digits.
\<close>

definition uri_unreserved :: "char \<Rightarrow> bool" where
  "uri_unreserved c \<longleftrightarrow>
     (let n = of_char c :: nat in
       (65 \<le> n \<and> n \<le> 90) \<or> (97 \<le> n \<and> n \<le> 122) \<or> (48 \<le> n \<and> n \<le> 57) \<or>
       n \<in> {45, 95, 46, 33, 126, 42, 39, 40, 41})"

definition hex_digit :: "nat \<Rightarrow> char" where
  "hex_digit n = (if n < 10 then char_of (48 + n) else char_of (55 + n))"

definition encode_char :: "char \<Rightarrow> js_string" where
  "encode_char c =
     (if uri_unreserved c then [c]
      else [CHR ''%'', hex_digit (of_char c div 16), hex_digit (of_char c mod 16)])"

definition encodeURIComponent :: "js_string \<Rightarrow> js_string" where
  "encodeURIComponent s = concat (map encode_char s)"

definition hex_val :: "char \<Rightarrow> nat option" where
  "hex_val c =
     (let n = of_char c :: nat in
       if 48 \<le> n \<and> n \<le> 57 then Some (n - 48)
       else if 65 \<le> n \<and> n \<le> 70 then Some (n - 55)
       else if 97 \<le> n \<and> n \<le> 102 then Some (n - 87)
       else None)"

text \<open>Percent-decoding of a query value (what the recipe service applies to \<^verbatim>\<open>i=\<close>).\<close>

fun uri_decode :: "js_string \<Rightarrow> js_string" where
  "uri_decode [] = []"
| "uri_decode (c # cs) =
     (if c = CHR ''%'' then
        (case cs of
          a # b # rest \<Rightarrow>
            (case (hex_val a, hex_val b) of
              (Some x, Some y) \<Rightarrow> char_of (16 * x + y) # uri_decode rest
            | _ \<Rightarrow> c # uri_decode cs)
        | _ \<Rightarrow> c # uri_decode cs)
      else c # uri_decode cs)"

subsection \<open>Promise.all\<close>

text \<open>
  A settled promise is \<open>Inl e\<close> (rejected) or \<open>Inr v\<close> (fulfilled).
  \<^verbatim>\<open>Promise.all\<close> fulfils with the values in the order of its argument, whatever
  order they settle in, and rejects when one of them rejects. Which rejection it
  reports is the first to settle; the model reports the first in list order, and the
  component discards the reason.
\<close>

fun promise_all :: "('e + 'a) list \<Rightarrow> 'e + 'a list" where
  "promise_all [] = Inr []"
| "promise_all (r # rs) =
     (case r of
       Inl e \<Rightarrow> Inl e
     | Inr x \<Rightarrow> (case promise_all rs of Inl e \<Rightarrow> Inl e | Inr xs \<Rightarrow> Inr (x # xs)))"

declare is_js_space_def [recipe_eval] js_trim_def [recipe_eval]
  js_lower_char_def [recipe_eval] js_toLowerCase_def [recipe_eval]
  uri_unreserved_def [recipe_eval] hex_digit_def [recipe_eval] encode_char_def [recipe_eval]
  encodeURIComponent_def [recipe_eval] hex_val_def [recipe_eval]

text \<open>Deciding equations between a character literal and a computed \<open>char_of\<close>.\<close>

lemma char_of_eq_iff' [recipe_eval]: "char_of (n::nat) = c \<longleftrightarrow> of_char c = n mod 256"
  unfolding char_of_eq_iff take_bit_eq_mod by auto

lemma eq_char_of_iff [recipe_eval]: "c = char_of (n::nat) \<longleftrightarrow> of_char c = n mod 256"
  by (metis char_of_eq_iff')

subsection \<open>Lemmas: split and join\<close>

lemma js_split_nonempty [simp]: "js_split d s \<noteq> []"
  by (induction s) (auto simp: Let_def)

lemma js_split_no_sep: "p \<in> set (js_split d s) \<Longrightarrow> d \<notin> set p"
proof (induction s arbitrary: p)
  case Nil
  then show ?case by simp
next
  case (Cons c cs)
  have ne: "js_split d cs \<noteq> []" by simp
  then have hd_in: "hd (js_split d cs) \<in> set (js_split d cs)" by simp
  have tl_sub: "set (tl (js_split d cs)) \<subseteq> set (js_split d cs)"
    by (cases "js_split d cs") auto
  from Cons.prems show ?case
    using Cons.IH hd_in tl_sub by (auto simp: Let_def split: if_splits)
qed

lemma js_join_split [simp]: "js_join d (js_split d s) = s"
proof (induction s)
  case Nil
  then show ?case by simp
next
  case (Cons c cs)
  obtain q qs where q: "js_split d cs = q # qs"
    by (cases "js_split d cs") auto
  show ?case
  proof (cases "c = d")
    case True
    with Cons.IH q show ?thesis by simp
  next
    case False
    with Cons.IH q show ?thesis by (cases qs) simp_all
  qed
qed

lemma js_split_append_sep:
  "d \<notin> set p \<Longrightarrow> js_split d (p @ d # s) = p # js_split d s"
  by (induction p) (auto simp: Let_def)

lemma js_split_no_sep_id: "d \<notin> set p \<Longrightarrow> js_split d p = [p]"
  by (induction p) (auto simp: Let_def)

lemma js_split_join:
  "ps \<noteq> [] \<Longrightarrow> \<forall>p \<in> set ps. d \<notin> set p \<Longrightarrow> js_split d (js_join d ps) = ps"
proof (induction ps rule: induct_list012)
  case 1
  then show ?case by simp
next
  case (2 p)
  then show ?case by (simp add: js_split_no_sep_id)
next
  case (3 p q ps)
  then show ?case by (simp add: js_split_append_sep)
qed

subsection \<open>Lemmas: trim\<close>

lemma js_trim_subset: "set (js_trim s) \<subseteq> set s"
  by (auto simp: js_trim_def dest!: set_dropWhileD)

lemma last_dropWhile: "dropWhile P xs \<noteq> [] \<Longrightarrow> last (dropWhile P xs) = last xs"
  by (induction xs) auto

lemma dropWhile_hd_not: "xs \<noteq> [] \<Longrightarrow> \<not> P (hd xs) \<Longrightarrow> dropWhile P xs = xs"
  by (cases xs) auto

lemma js_trim_no_leading: "js_trim s \<noteq> [] \<Longrightarrow> \<not> is_js_space (hd (js_trim s))"
proof -
  assume ne: "js_trim s \<noteq> []"
  let ?u = "dropWhile is_js_space s"
  let ?v = "dropWhile is_js_space (rev ?u)"
  have t: "js_trim s = rev ?v" by (simp add: js_trim_def)
  with ne have v: "?v \<noteq> []" by simp
  then have u: "?u \<noteq> []" by (metis dropWhile.simps(1) rev.simps(1))
  have "hd (js_trim s) = last ?v" using t v by (simp add: hd_rev)
  also have "\<dots> = hd ?u" using v u by (simp add: last_dropWhile last_rev)
  finally show ?thesis using u hd_dropWhile by metis
qed

lemma js_trim_no_trailing: "js_trim s \<noteq> [] \<Longrightarrow> \<not> is_js_space (last (js_trim s))"
proof -
  assume ne: "js_trim s \<noteq> []"
  let ?v = "dropWhile is_js_space (rev (dropWhile is_js_space s))"
  have t: "js_trim s = rev ?v" by (simp add: js_trim_def)
  with ne have v: "?v \<noteq> []" by simp
  have "last (js_trim s) = hd ?v" using t v by (simp add: last_rev)
  then show ?thesis using v hd_dropWhile by metis
qed

lemma js_trim_idem [simp]: "js_trim (js_trim s) = js_trim s"
proof (cases "js_trim s = []")
  case True
  then show ?thesis by (simp only: True) (simp add: js_trim_def)
next
  case False
  let ?t = "js_trim s"
  have h: "dropWhile is_js_space ?t = ?t"
    using js_trim_no_leading [OF False] False by (rule dropWhile_hd_not [rotated])
  have "rev ?t \<noteq> []" and "\<not> is_js_space (hd (rev ?t))"
    using False js_trim_no_trailing [OF False] by (simp_all add: hd_rev)
  then have l: "dropWhile is_js_space (rev ?t) = rev ?t" by (rule dropWhile_hd_not)
  have "js_trim ?t = rev (dropWhile is_js_space (rev (dropWhile is_js_space ?t)))"
    by (rule js_trim_def)
  then show ?thesis by (simp only: h l rev_rev_ident)
qed

lemma dropWhile_all_iff: "(\<forall>x \<in> set (dropWhile P xs). P x) \<longleftrightarrow> (\<forall>x \<in> set xs. P x)"
  by (induction xs) auto

lemma js_trim_Nil_iff: "js_trim s = [] \<longleftrightarrow> (\<forall>c \<in> set s. is_js_space c)"
  by (simp add: js_trim_def dropWhile_eq_Nil_conv dropWhile_all_iff)

subsection \<open>Lemmas: toLowerCase and includes\<close>

lemma js_lower_char_idem [simp]: "js_lower_char (js_lower_char c) = js_lower_char c"
proof -
  have lt: "of_char c < (256::nat)" by simp
  show ?thesis
  proof (cases "65 \<le> (of_char c :: nat) \<and> (of_char c :: nat) \<le> 90")
    case True
    with lt have "of_char (char_of (of_char c + 32 :: nat)) = (of_char c + 32 :: nat)"
      by (simp add: of_char_of)
    with True show ?thesis by (simp add: js_lower_char_def Let_def)
  next
    case False
    then show ?thesis by (auto simp: js_lower_char_def Let_def)
  qed
qed

lemma js_toLowerCase_idem [simp]: "js_toLowerCase (js_toLowerCase s) = js_toLowerCase s"
  by (simp add: js_toLowerCase_def)

lemma js_toLowerCase_Nil_iff [simp]: "js_toLowerCase s = [] \<longleftrightarrow> s = []"
  by (simp add: js_toLowerCase_def)

lemma js_includes_sublist: "js_includes hay needle \<longleftrightarrow> sublist needle hay"
  by (induction hay needle rule: js_includes.induct) (auto simp: sublist_Cons_right)

lemma js_includes_Nil [simp]: "js_includes hay []"
  by (simp add: js_includes_sublist)

lemma js_includes_lower_map:
  "js_includes (js_toLowerCase hay) (js_toLowerCase needle) \<longleftrightarrow>
   sublist (map js_lower_char needle) (map js_lower_char hay)"
  by (simp add: js_includes_sublist js_toLowerCase_def)

subsection \<open>Lemmas: encodeURIComponent\<close>

lemma hex_val_hex_digit [simp]: "n < 16 \<Longrightarrow> hex_val (hex_digit n) = Some n"
  by (auto simp: hex_val_def hex_digit_def Let_def)

lemma uri_unreserved_not_percent: "uri_unreserved c \<Longrightarrow> c \<noteq> CHR ''%''"
  by (auto simp: uri_unreserved_def)

lemma of_char_div_mod_16:
  "char_of (16 * (of_char c div 16) + of_char c mod 16 :: nat) = c"
  by simp

lemma of_char_div_16_lt: "of_char c div 16 < (16::nat)"
  using nat_of_char_less_256 [of c] by (intro less_mult_imp_div_less) simp

lemma uri_decode_encode [simp]: "uri_decode (encodeURIComponent s) = s"
proof (induction s)
  case Nil
  then show ?case by (simp add: encodeURIComponent_def)
next
  case (Cons c cs)
  have lt: "of_char c div 16 < (16::nat)" "of_char c mod 16 < (16::nat)"
    by (simp_all add: of_char_div_16_lt)
  show ?case
  proof (cases "uri_unreserved c")
    case True
    with Cons.IH show ?thesis
      by (simp add: encodeURIComponent_def encode_char_def uri_unreserved_not_percent)
  next
    case False
    with Cons.IH lt show ?thesis
      by (simp add: encodeURIComponent_def encode_char_def)
  qed
qed

definition uri_safe_char :: "char \<Rightarrow> bool" where
  "uri_safe_char c \<longleftrightarrow> uri_unreserved c \<or> c = CHR ''%'' \<or> hex_val c \<noteq> None"

lemma encodeURIComponent_safe: "c \<in> set (encodeURIComponent s) \<Longrightarrow> uri_safe_char c"
proof -
  assume "c \<in> set (encodeURIComponent s)"
  then obtain x where "x \<in> set s" and c: "c \<in> set (encode_char x)"
    by (auto simp: encodeURIComponent_def)
  have lt: "of_char x div 16 < (16::nat)" "of_char x mod 16 < (16::nat)"
    by (simp_all add: of_char_div_16_lt)
  from c lt show ?thesis
    by (auto simp: encode_char_def uri_safe_char_def split: if_splits)
qed

lemma uri_decode_Cons_cases:
  "uri_decode (c # cs) = c # uri_decode cs \<or>
   (\<exists>a b rest x y. cs = a # b # rest \<and> uri_decode (c # cs) = char_of (16 * x + y :: nat) # uri_decode rest)"
  apply (subst (1 2) uri_decode.simps(2))
  apply (simp del: uri_decode.simps split: list.split option.split)
  apply blast
  done

lemma length_uri_decode_le: "length (uri_decode s) \<le> length s"
proof (induction "length s" arbitrary: s rule: less_induct)
  case less
  then have IH: "\<And>t. length t < length s \<Longrightarrow> length (uri_decode t) \<le> length t" by blast
  show ?case
  proof (cases s)
    case Nil
    then show ?thesis by simp
  next
    case (Cons c cs)
    have cs: "length (uri_decode cs) \<le> length cs" by (rule IH) (simp add: Cons)
    from uri_decode_Cons_cases [of c cs] show ?thesis
    proof
      assume "uri_decode (c # cs) = c # uri_decode cs"
      with cs Cons show ?thesis by (simp del: uri_decode.simps)
    next
      assume "\<exists>a b rest x y. cs = a # b # rest \<and> uri_decode (c # cs) = char_of (16 * x + y :: nat) # uri_decode rest"
      then obtain a b rest and x y :: nat where ab: "cs = a # b # rest"
        and d: "uri_decode (c # cs) = char_of (16 * x + y) # uri_decode rest" by blast
      have "length (uri_decode rest) \<le> length rest" by (rule IH) (simp add: Cons ab)
      with d ab Cons show ?thesis by (simp del: uri_decode.simps)
    qed
  qed
qed

subsection \<open>Lemmas: Promise.all\<close>

lemma promise_all_Inr_iff: "promise_all rs = Inr xs \<longleftrightarrow> rs = map Inr xs"
proof (induction rs arbitrary: xs)
  case Nil
  then show ?case by auto
next
  case (Cons r rs)
  show ?case
  proof (cases r)
    case (Inl e)
    then show ?thesis by auto
  next
    case (Inr x)
    then show ?thesis
      using Cons.IH by (cases "promise_all rs") (auto simp: Cons_eq_map_conv)
  qed
qed

lemma promise_all_map_Inr [simp]: "promise_all (map Inr xs) = Inr xs"
  by (simp add: promise_all_Inr_iff)

lemma promise_all_Cons_Inr_Inl [simp]:
  "promise_all (Inr x # rs) = Inl e \<longleftrightarrow> promise_all rs = Inl e"
  by (simp split: sum.splits)

lemma promise_all_Inl_iff: "(\<exists>e. promise_all rs = Inl e) \<longleftrightarrow> (\<exists>e. Inl e \<in> set rs)"
proof (induction rs)
  case Nil
  then show ?case by simp
next
  case (Cons r rs)
  then show ?case by (cases r) (auto split: sum.splits)
qed

lemma promise_all_Inr_length: "promise_all rs = Inr xs \<Longrightarrow> length xs = length rs"
  by (simp add: promise_all_Inr_iff)

end
