(* ===== verification/Resolver.thy ===== *)
theory Resolver
  imports JS_Builtins
begin

text \<open>
  The ingredient resolver of \<^verbatim>\<open>fetchRecipes\<close> (\<^verbatim>\<open>src/src/RecipeFinder.jsx\<close>,
  lines 14--19 and 35--41): \<^verbatim>\<open>moodMapping\<close> as a map of its four own properties,
  \<^verbatim>\<open>inputList\<close> (split on commas, trim, drop empty pieces) and
  \<^verbatim>\<open>baseIngredients\<close> (the input list when it is non-empty, else the mood's term
  or \<^verbatim>\<open>"chicken"\<close> through \<^verbatim>\<open>||\<close>). The empty-list guard of lines 43--46 acts
  on the component state and is modelled with the click handler in \<open>UI\<close>.

  The lemmas characterise the input that yields no term (only commas and white space),
  show that every term is non-empty, trimmed and comma-free, that typing the terms
  separated by commas and padded with white space gives them back in order, repetitions
  included, and that
  the result is never empty.
\<close>

definition moodMapping :: "js_string \<rightharpoonup> js_string" where
  "moodMapping =
     [''Comfort Food'' \<mapsto> ''cheese'', ''Spicy'' \<mapsto> ''chili'',
      ''Quick Meal'' \<mapsto> ''egg'', ''Healthy'' \<mapsto> ''salad'']"

definition inputList :: "js_string \<Rightarrow> js_string list" where
  "inputList ingredients = filter (\<lambda>item. item \<noteq> '''') (map js_trim (js_split (CHR '','') ingredients))"

definition baseIngredients :: "js_string \<Rightarrow> js_string \<Rightarrow> js_string list" where
  "baseIngredients ingredients mood =
     (let inputList = inputList ingredients in
      if length inputList > 0 then inputList else [js_or (moodMapping mood) ''chicken''])"

declare moodMapping_def [recipe_eval] inputList_def [recipe_eval] baseIngredients_def [recipe_eval]

subsection \<open>Pieces of the split\<close>

lemma in_js_split_iff: "(\<exists>p \<in> set (js_split d s). c \<in> set p) \<longleftrightarrow> c \<in> set s \<and> c \<noteq> d"
proof (induction s)
  case Nil
  then show ?case by simp
next
  case (Cons x xs)
  obtain q qs where q: "js_split d xs = q # qs"
    by (cases "js_split d xs") auto
  from Cons.IH q show ?case by (auto simp: Let_def)
qed

lemma inputList_Nil_iff:
  "inputList s = [] \<longleftrightarrow> (\<forall>c \<in> set s. c = CHR '','' \<or> is_js_space c)"
proof -
  have "inputList s = [] \<longleftrightarrow> (\<forall>p \<in> set (js_split (CHR '','') s). \<forall>c \<in> set p. is_js_space c)"
    by (simp add: inputList_def filter_empty_conv js_trim_Nil_iff)
  also have "\<dots> \<longleftrightarrow> (\<forall>c \<in> set s. c = CHR '','' \<or> is_js_space c)"
  proof
    assume all: "\<forall>p \<in> set (js_split (CHR '','') s). \<forall>c \<in> set p. is_js_space c"
    show "\<forall>c \<in> set s. c = CHR '','' \<or> is_js_space c"
    proof
      fix c assume "c \<in> set s"
      then show "c = CHR '','' \<or> is_js_space c"
        using in_js_split_iff [of "CHR '',''" s c] all by blast
    qed
  next
    assume all: "\<forall>c \<in> set s. c = CHR '','' \<or> is_js_space c"
    show "\<forall>p \<in> set (js_split (CHR '','') s). \<forall>c \<in> set p. is_js_space c"
    proof (intro ballI)
      fix p c assume "p \<in> set (js_split (CHR '','') s)" and "c \<in> set p"
      then have "c \<in> set s \<and> c \<noteq> CHR '',''" using in_js_split_iff [of "CHR '',''" s c] by blast
      with all show "is_js_space c" by blast
    qed
  qed
  finally show ?thesis .
qed

lemma inputList_items:
  "t \<in> set (inputList s) \<Longrightarrow> t \<noteq> [] \<and> js_trim t = t \<and> CHR '','' \<notin> set t"
proof -
  assume "t \<in> set (inputList s)"
  then obtain p where p: "p \<in> set (js_split (CHR '','') s)" and t: "t = js_trim p" "t \<noteq> []"
    by (auto simp: inputList_def)
  have "CHR '','' \<notin> set p" using p by (rule js_split_no_sep)
  then have "CHR '','' \<notin> set t" using js_trim_subset t(1) by blast
  with t show ?thesis by simp
qed

lemma js_trim_pad:
  assumes l: "\<forall>c \<in> set l. is_js_space c" and r: "\<forall>c \<in> set r. is_js_space c"
    and t: "t \<noteq> []" "js_trim t = t"
  shows "js_trim (l @ t @ r) = t"
proof -
  have h: "\<not> is_js_space (hd t)" and e: "\<not> is_js_space (last t)"
    using js_trim_no_leading [of t] js_trim_no_trailing [of t] t by simp_all
  have "dropWhile is_js_space (l @ t @ r) = dropWhile is_js_space (t @ r)"
    using l by (simp add: dropWhile_append)
  also have "\<dots> = t @ r"
    using h t(1) by (cases t) simp_all
  finally have d1: "dropWhile is_js_space (l @ t @ r) = t @ r" .
  have "dropWhile is_js_space (rev r @ rev t) = dropWhile is_js_space (rev t)"
    using r by (simp add: dropWhile_append)
  also have "\<dots> = rev t"
    using e t(1) by (simp add: dropWhile_hd_not hd_rev)
  finally have d2: "dropWhile is_js_space (rev r @ rev t) = rev t" .
  from d1 d2 show ?thesis by (simp add: js_trim_def)
qed

subsection \<open>Properties of the resolver\<close>

lemma is_js_space_comma [simp]: "\<not> is_js_space (CHR '','')"
  by (simp add: is_js_space_def)

lemma baseIngredients_of_inputList:
  "inputList ing \<noteq> [] \<Longrightarrow> baseIngredients ing mood = inputList ing"
  by (simp add: baseIngredients_def)

lemma baseIngredients_of_no_input:
  "\<forall>c \<in> set ing. c = CHR '','' \<or> is_js_space c \<Longrightarrow>
   baseIngredients ing mood = [js_or (moodMapping mood) ''chicken'']"
  by (simp add: baseIngredients_def inputList_Nil_iff [symmetric])

lemma baseIngredients_not_Nil [simp]: "baseIngredients ing mood \<noteq> []"
  by (simp add: baseIngredients_def Let_def)

lemma mood_term_cases:
  "js_or (moodMapping mood) ''chicken'' \<in> {''cheese'', ''chili'', ''egg'', ''salad'', ''chicken''}"
  by (simp add: moodMapping_def js_or_def truthy_def)

lemma baseIngredients_terms:
  "t \<in> set (baseIngredients ing mood) \<Longrightarrow> t \<noteq> [] \<and> js_trim t = t \<and> CHR '','' \<notin> set t"
proof (cases "inputList ing = []")
  case True
  assume "t \<in> set (baseIngredients ing mood)"
  with True have "t \<in> {''cheese'', ''chili'', ''egg'', ''salad'', ''chicken''}"
    using mood_term_cases [of mood] by (simp add: baseIngredients_def)
  then show ?thesis by (auto simp: js_trim_def is_js_space_def)
next
  case False
  assume "t \<in> set (baseIngredients ing mood)"
  with False show ?thesis by (simp add: baseIngredients_of_inputList inputList_items)
qed

text \<open>
  C4: typing search terms separated by commas, each padded with white space, yields
  exactly those terms in their order, whatever the mood: the split, the trim and the
  filter of empty pieces recover the input list, and the mood is ignored.
\<close>

theorem baseIngredients_typed_terms:
  assumes "parts \<noteq> []"
    and "\<forall>(l, t, r) \<in> set parts. (\<forall>c \<in> set l. is_js_space c) \<and> (\<forall>c \<in> set r. is_js_space c) \<and>
           t \<noteq> [] \<and> js_trim t = t \<and> CHR '','' \<notin> set t"
  shows "baseIngredients (js_join (CHR '','') (map (\<lambda>(l, t, r). l @ t @ r) parts)) mood =
         map (\<lambda>(l, t, r). t) parts"
proof -
  let ?pieces = "map (\<lambda>(l, t, r). l @ t @ r) parts"
  have nosep: "\<forall>p \<in> set ?pieces. CHR '','' \<notin> set p"
    using assms(2) by fastforce
  have split: "js_split (CHR '','') (js_join (CHR '','') ?pieces) = ?pieces"
    using assms(1) nosep by (simp add: js_split_join)
  have trim: "map js_trim ?pieces = map (\<lambda>(l, t, r). t) parts"
    using assms(2) by (auto simp: js_trim_pad)
  have "inputList (js_join (CHR '','') ?pieces) =
      filter (\<lambda>item. item \<noteq> '''') (map (\<lambda>(l, t, r). t) parts)"
    by (simp only: inputList_def split trim)
  also have "\<dots> = map (\<lambda>(l, t, r). t) parts"
    using assms(2) by (auto intro!: filter_True)
  finally have "inputList (js_join (CHR '','') ?pieces) = map (\<lambda>(l, t, r). t) parts" .
  moreover have "map (\<lambda>(l, t, r). t) parts \<noteq> []" using assms(1) by simp
  ultimately show ?thesis by (simp add: baseIngredients_of_inputList)
qed

theorem baseIngredients_typed_terms_witness:
  "baseIngredients ''chicken, rice'' ''Spicy'' = [''chicken'', ''rice'']"
  using baseIngredients_typed_terms [of "[('''', ''chicken'', ''''), ('' '', ''rice'', '''')]" "''Spicy''"]
  by (simp add: recipe_eval)

text \<open>
  C5: when the ingredient field holds no term (only commas and white space), a
  recognised mood selects its one term: Comfort Food gives cheese, Spicy chili,
  Quick Meal egg and Healthy salad.
\<close>

theorem baseIngredients_mood:
  "\<forall>c \<in> set ing. c = CHR '','' \<or> is_js_space c \<Longrightarrow>
   (mood, term) \<in> set [(''Comfort Food'', ''cheese''), (''Spicy'', ''chili''),
                       (''Quick Meal'', ''egg''), (''Healthy'', ''salad'')] \<Longrightarrow>
   baseIngredients ing mood = [term]"
  by (auto simp: baseIngredients_of_no_input moodMapping_def js_or_def truthy_def)

theorem baseIngredients_mood_witness: "baseIngredients '' , '' ''Spicy'' = [''chili'']"
  by (rule baseIngredients_mood) (simp_all add: recipe_eval)

text \<open>
  C6: when the ingredient field holds no term and the mood is empty or not one of the
  four options, the search term is the default \<^verbatim>\<open>"chicken"\<close>.
\<close>

theorem baseIngredients_default:
  "\<forall>c \<in> set ing. c = CHR '','' \<or> is_js_space c \<Longrightarrow>
   mood \<notin> {''Comfort Food'', ''Spicy'', ''Quick Meal'', ''Healthy''} \<Longrightarrow>
   baseIngredients ing mood = [''chicken'']"
  by (simp add: baseIngredients_of_no_input moodMapping_def js_or_def)

theorem baseIngredients_default_witness: "baseIngredients '''' '''' = [''chicken'']"
  by (rule baseIngredients_default) simp_all

text \<open>
  C7: the resolver never returns an empty list, and every term it returns is a
  non-empty string; so the guard \<^verbatim>\<open>baseIngredients.length === 0\<close> of
  \<^verbatim>\<open>fetchRecipes\<close> can never fire.
\<close>

theorem baseIngredients_nonempty:
  "baseIngredients ing mood \<noteq> [] \<and> list_all truthy (baseIngredients ing mood)"
proof (cases "inputList ing = []")
  case True
  then show ?thesis
    using js_or_truthy [of "moodMapping mood" "''chicken''"]
    by (simp add: baseIngredients_def truthy_def)
next
  case False
  then show ?thesis
    using inputList_items by (simp add: baseIngredients_of_inputList list_all_iff truthy_def)
qed

end
