(* ===== verification/Meals.thy ===== *)
theory Meals
  imports Prelude
begin

text \<open>
  The meal objects of the recipe service and \<^verbatim>\<open>mergeMeals\<close>
  (\<^verbatim>\<open>src/src/RecipeFinder.jsx\<close>, lines 21--32). A summary (what
  \<^verbatim>\<open>filter.php\<close> returns) has an identifier, a name and a thumbnail; a detail
  (what \<^verbatim>\<open>lookup.php\<close> returns) extends it with category, area, instructions, an
  optional video link and the twenty ingredient and measure slots
  \<^verbatim>\<open>strIngredient1..20\<close>, \<^verbatim>\<open>strMeasure1..20\<close>, read by index as the code reads
  \<^verbatim>\<open>meal[`strIngredient${i}`]\<close>. The extensible record lets \<^verbatim>\<open>mergeMeals\<close> work on
  both shapes, as the JavaScript does.

  \<^verbatim>\<open>mergeMeals\<close> is the \<^verbatim>\<open>for ... of\<close> loop over \<^verbatim>\<open>arrays.flat()\<close> with the
  \<^verbatim>\<open>unique\<close> array and the \<^verbatim>\<open>seen\<close> set as its state, a \<open>fold\<close> of the loop
  body. Its specification \<open>first_occurrences\<close> keeps the positions whose key does
  not occur earlier; the lemmas prove the loop equal to it, and from it that the result
  has distinct identifiers, the same identifiers as the input, is a subsequence of the
  input, and holds for each identifier its first occurrence.
\<close>

record meal_summary =
  idMeal :: meal_id
  strMeal :: js_string
  strMealThumb :: js_string

record meal_detail = meal_summary +
  strCategory :: js_string
  strArea :: js_string
  strInstructions :: js_string
  strYoutube :: "js_string option"
  strIngredient :: "nat \<Rightarrow> js_string option"
  strMeasure :: "nat \<Rightarrow> js_string option"

type_synonym 'a meal = "'a meal_summary_scheme"

text \<open>The loop body: \<^verbatim>\<open>if (!seen.has(m.idMeal)) { seen.add(m.idMeal); unique.push(m); }\<close>.\<close>

definition mergeMeals_step :: "'a meal \<Rightarrow> 'a meal list \<times> meal_id set \<Rightarrow> 'a meal list \<times> meal_id set" where
  "mergeMeals_step m acc =
     (let (unique, seen) = acc in
      if idMeal m \<notin> seen then (unique @ [m], insert (idMeal m) seen) else (unique, seen))"

definition mergeMeals :: "'a meal list list \<Rightarrow> 'a meal list" where
  "mergeMeals arrays = fst (fold mergeMeals_step (concat arrays) ([], {}))"

text \<open>The specification: the elements whose key does not occur at an earlier position.\<close>

definition first_occurrences :: "('a \<Rightarrow> 'k) \<Rightarrow> 'a list \<Rightarrow> 'a list" where
  "first_occurrences key xs =
     map (nth xs) (filter (\<lambda>i. key (xs ! i) \<notin> key ` set (take i xs)) [0..<length xs])"

declare mergeMeals_step_def [recipe_eval] mergeMeals_def [recipe_eval]

subsection \<open>The specification, element by element\<close>

lemma first_occurrences_Nil [simp]: "first_occurrences key [] = []"
  by (simp add: first_occurrences_def)

lemma first_occurrences_snoc:
  "first_occurrences key (xs @ [x]) =
     first_occurrences key xs @ (if key x \<in> key ` set xs then [] else [x])"
proof -
  let ?P = "\<lambda>ys i. key (ys ! i) \<notin> key ` set (take i ys)"
  have pre: "filter (?P (xs @ [x])) [0..<length xs] = filter (?P xs) [0..<length xs]"
    by (rule filter_cong) (simp_all add: nth_append)
  have nth: "map (nth (xs @ [x])) (filter (?P xs) [0..<length xs])
           = map (nth xs) (filter (?P xs) [0..<length xs])"
    by (rule map_cong) (simp_all add: nth_append)
  have last: "filter (?P (xs @ [x])) [length xs] =
      (if key x \<in> key ` set xs then [] else [length xs])"
    by simp
  have "first_occurrences key (xs @ [x]) =
      map (nth (xs @ [x])) (filter (?P xs) [0..<length xs]) @
      map (nth (xs @ [x])) (if key x \<in> key ` set xs then [] else [length xs])"
    by (simp only: first_occurrences_def length_append_singleton upt_Suc_append [OF le0]
        filter_append pre last map_append)
  then show ?thesis
    by (simp only: nth) (simp add: first_occurrences_def)
qed

lemma key_set_first_occurrences [simp]:
  "key ` set (first_occurrences key xs) = key ` set xs"
  by (induction xs rule: rev_induct) (auto simp: first_occurrences_snoc)

lemma set_first_occurrences: "set (first_occurrences key xs) \<subseteq> set xs"
  by (induction xs rule: rev_induct) (auto simp: first_occurrences_snoc)

lemma distinct_first_occurrences: "distinct (map key (first_occurrences key xs))"
proof (induction xs rule: rev_induct)
  case Nil
  then show ?case by simp
next
  case (snoc x xs)
  have "key x \<notin> key ` set xs \<Longrightarrow> key x \<notin> set (map key (first_occurrences key xs))"
    by (metis key_set_first_occurrences set_map)
  with snoc.IH show ?case by (simp add: first_occurrences_snoc)
qed

lemma subseq_first_occurrences: "subseq (first_occurrences key xs) xs"
proof (induction xs rule: rev_induct)
  case Nil
  then show ?case by simp
next
  case (snoc x xs)
  have "subseq (first_occurrences key xs @ []) (xs @ [x])"
    by (rule list_emb_append_mono) (use snoc.IH in simp_all)
  moreover have "subseq (first_occurrences key xs @ [x]) (xs @ [x])"
    by (rule list_emb_append_mono) (use snoc.IH in simp_all)
  ultimately show ?case by (simp add: first_occurrences_snoc)
qed

lemma first_occurrences_distinct_id: "distinct (map key xs) \<Longrightarrow> first_occurrences key xs = xs"
  by (induction xs rule: rev_induct) (auto simp: first_occurrences_snoc)

lemma find_first_occurrences:
  "m \<in> set (first_occurrences key xs) \<Longrightarrow> find (\<lambda>n. key n = key m) xs = Some m"
proof (induction xs rule: rev_induct)
  case Nil
  then show ?case by simp
next
  case (snoc x xs)
  show ?case
  proof (cases "m \<in> set (first_occurrences key xs)")
    case True
    then show ?thesis using snoc.IH by (simp add: find_append)
  next
    case False
    with snoc.prems have m: "m = x" and fresh: "key x \<notin> key ` set xs"
      by (auto simp: first_occurrences_snoc split: if_splits)
    have "find (\<lambda>n. key n = key x) xs = None"
      using fresh by (simp add: find_None_iff) (metis image_eqI)
    with m show ?thesis by (simp add: find_append)
  qed
qed

subsection \<open>The loop against the specification\<close>

lemma fold_mergeMeals_step:
  "fold mergeMeals_step xs ([], {}) = (first_occurrences idMeal xs, idMeal ` set xs)"
proof (induction xs rule: rev_induct)
  case Nil
  then show ?case by simp
next
  case (snoc x xs)
  then show ?case
    by (simp add: mergeMeals_step_def first_occurrences_snoc insert_absorb)
qed

subsection \<open>Properties of mergeMeals\<close>

text \<open>
  C1: \<^verbatim>\<open>mergeMeals\<close> computes its specification: the loop with the
  \<^verbatim>\<open>seen\<close> set returns exactly the elements of the flattened lists whose
  \<^verbatim>\<open>idMeal\<close> does not occur at an earlier position, in their order.
\<close>

theorem mergeMeals_spec: "mergeMeals arrays = first_occurrences idMeal (concat arrays)"
  by (simp add: mergeMeals_def fold_mergeMeals_step)

text \<open>C2: no two meals returned by \<^verbatim>\<open>mergeMeals\<close> share an \<^verbatim>\<open>idMeal\<close>.\<close>

theorem mergeMeals_distinct: "distinct (map idMeal (mergeMeals arrays))"
  by (simp add: mergeMeals_def fold_mergeMeals_step distinct_first_occurrences)

text \<open>
  C3: \<^verbatim>\<open>mergeMeals\<close> loses no identifier, keeps the encounter order (its result is
  a subsequence of the concatenated lists) and keeps, for each identifier, the first
  meal with that identifier in term order, then within-list order.
\<close>

theorem mergeMeals_first_occurrence:
  "idMeal ` set (mergeMeals arrays) = idMeal ` set (concat arrays) \<and>
   subseq (mergeMeals arrays) (concat arrays) \<and>
   (\<forall>m \<in> set (mergeMeals arrays). find (\<lambda>n. idMeal n = idMeal m) (concat arrays) = Some m)"
  by (simp add: mergeMeals_def fold_mergeMeals_step subseq_first_occurrences find_first_occurrences)

abbreviation ex_teriyaki :: meal_summary where
  "ex_teriyaki \<equiv> \<lparr>idMeal = ''52772'', strMeal = ''Teriyaki Chicken'', strMealThumb = ''t1''\<rparr>"

abbreviation ex_handi :: meal_summary where
  "ex_handi \<equiv> \<lparr>idMeal = ''52795'', strMeal = ''Chicken Handi'', strMealThumb = ''t2''\<rparr>"

abbreviation ex_couscous :: meal_summary where
  "ex_couscous \<equiv> \<lparr>idMeal = ''52850'', strMeal = ''Chicken Couscous'', strMealThumb = ''t3''\<rparr>"

theorem mergeMeals_first_occurrence_witness:
  "mergeMeals [[ex_teriyaki, ex_handi], [ex_handi, ex_couscous]] = [ex_teriyaki, ex_handi, ex_couscous] \<and>
   find (\<lambda>n. idMeal n = ''52795'') [ex_teriyaki, ex_handi, ex_handi, ex_couscous] = Some ex_handi \<and>
   find (\<lambda>n. idMeal n = ''52850'') [ex_teriyaki, ex_handi, ex_handi, ex_couscous] = Some ex_couscous"
proof -
  have eval: "mergeMeals [[ex_teriyaki, ex_handi], [ex_handi, ex_couscous]] = [ex_teriyaki, ex_handi, ex_couscous]"
    by (simp add: recipe_eval)
  have "\<forall>m \<in> set (mergeMeals [[ex_teriyaki, ex_handi], [ex_handi, ex_couscous]]).
          find (\<lambda>n. idMeal n = idMeal m) (concat [[ex_teriyaki, ex_handi], [ex_handi, ex_couscous]]) = Some m"
    using mergeMeals_first_occurrence by blast
  with eval show ?thesis by simp
qed

end
