(* ===== verification/Filters.thy ===== *)
theory Filters
  imports JS_Builtins Meals
begin

text \<open>
  The filters of \<^verbatim>\<open>fetchRecipes\<close> applied to the hydrated meals
  (\<^verbatim>\<open>src/src/RecipeFinder.jsx\<close>, lines 77--90): the exclusion filter, whose
  callback is the \<^verbatim>\<open>for (let i = 1; i <= 20; i++)\<close> loop over the ingredient
  slots with its early \<^verbatim>\<open>return false\<close>, and the time cap, two \<^verbatim>\<open>slice\<close>s
  guarded by string comparisons with the option values of the time select. The loop is
  a \<^theory_text>\<open>function\<close> on the slot index with the measure \<open>21 - i\<close>.

  The lemmas prove the loop equal to "no slot from 1 to 20 matches", the filter equal to
  a case-insensitive substring test on the ingredient slots (the truthiness guard on the
  slot is redundant once the exclusion text is non-empty), and the cap equal to
  \<open>take 3\<close>, \<open>take 5\<close> or the identity.
\<close>

definition slot_excluded :: "js_string \<Rightarrow> js_string option \<Rightarrow> bool" where
  "slot_excluded excludeLower ing =
     (case ing of
       Some s \<Rightarrow> truthy s \<and> js_includes (js_toLowerCase s) excludeLower
     | None \<Rightarrow> False)"

function keep_meal_from :: "js_string \<Rightarrow> 'a meal_detail_scheme \<Rightarrow> nat \<Rightarrow> bool" where
  "keep_meal_from excludeLower meal i =
     (if i \<le> 20 then
        (if slot_excluded excludeLower (strIngredient meal i) then False
         else keep_meal_from excludeLower meal (i + 1))
      else True)"
  by pat_completeness auto
termination
  by (relation "measure (\<lambda>(_, _, i). 21 - i)") auto

definition keep_meal :: "js_string \<Rightarrow> 'a meal_detail_scheme \<Rightarrow> bool" where
  "keep_meal excludeLower meal = keep_meal_from excludeLower meal 1"

definition exclude_filter :: "js_string \<Rightarrow> 'a meal_detail_scheme list \<Rightarrow> 'a meal_detail_scheme list" where
  "exclude_filter exclude detailedMeals =
     (if truthy exclude then
        (let excludeLower = js_toLowerCase exclude in filter (keep_meal excludeLower) detailedMeals)
      else detailedMeals)"

text \<open>The two option values the cap compares with; the second holds an en dash (U+2013).\<close>

definition time_under_15 :: js_string where
  "time_under_15 = ''Under 15 minutes''"

definition time_30_45 :: js_string where
  "time_30_45 = ''30'' @ [CHR 0xE2, CHR 0x80, CHR 0x93] @ ''45 minutes''"

definition time_cap :: "js_string \<Rightarrow> 'a list \<Rightarrow> 'a list" where
  "time_cap time finalMeals =
     (let finalMeals = (if time = time_under_15 then take 3 finalMeals else finalMeals) in
      if time = time_30_45 then take 5 finalMeals else finalMeals)"

declare keep_meal_from.simps [simp del]

declare slot_excluded_def [recipe_eval] keep_meal_def [recipe_eval]
  exclude_filter_def [recipe_eval]
  time_under_15_def [recipe_eval] time_30_45_def [recipe_eval] time_cap_def [recipe_eval]

subsection \<open>The slot loop\<close>

lemma keep_meal_from_iff:
  "keep_meal_from x meal i \<longleftrightarrow> \<not> (\<exists>j. i \<le> j \<and> j \<le> 20 \<and> slot_excluded x (strIngredient meal j))"
proof (induction x meal i rule: keep_meal_from.induct)
  case (1 x meal i)
  show ?case
  proof (cases "i \<le> 20")
    case True
    have step: "keep_meal_from x meal i \<longleftrightarrow>
        \<not> slot_excluded x (strIngredient meal i) \<and> keep_meal_from x meal (i + 1)"
      using True by (simp add: keep_meal_from.simps [of x meal i])
    let ?S = "\<lambda>j. slot_excluded x (strIngredient meal j)"
    have split: "(\<exists>j. i \<le> j \<and> j \<le> 20 \<and> ?S j) \<longleftrightarrow> ?S i \<or> (\<exists>j. Suc i \<le> j \<and> j \<le> 20 \<and> ?S j)"
      by (rule ex_from_split [OF True])
    show ?thesis
    proof (cases "?S i")
      case True
      with step split show ?thesis by blast
    next
      case False
      with "1.IH" [OF \<open>i \<le> 20\<close>] have "keep_meal_from x meal (i + 1) \<longleftrightarrow>
          \<not> (\<exists>j. Suc i \<le> j \<and> j \<le> 20 \<and> ?S j)"
        by simp
      with False step split show ?thesis by blast
    qed
  next
    case False
    then show ?thesis by (simp add: keep_meal_from.simps [of x meal i])
  qed
qed

lemma slot_excluded_sublist:
  "x \<noteq> [] \<Longrightarrow> slot_excluded x ing \<longleftrightarrow> (\<exists>s. ing = Some s \<and> sublist x (js_toLowerCase s))"
  by (auto simp: slot_excluded_def truthy_def js_includes_sublist js_toLowerCase_def
      split: option.splits)

lemma keep_meal_sublist:
  "x \<noteq> [] \<Longrightarrow>
   keep_meal x meal \<longleftrightarrow>
     \<not> (\<exists>i \<in> {1..20}. \<exists>s. strIngredient meal i = Some s \<and> sublist x (js_toLowerCase s))"
  by (auto simp: keep_meal_def keep_meal_from_iff slot_excluded_sublist)

lemma exclude_filter_member:
  "ex \<noteq> [] \<Longrightarrow> m \<in> set (exclude_filter ex ms) \<Longrightarrow>
   \<not> (\<exists>i \<in> {1..20}. \<exists>s. strIngredient m i = Some s \<and> sublist (js_toLowerCase ex) (js_toLowerCase s))"
  using keep_meal_sublist [of "js_toLowerCase ex" m]
  by (auto simp: exclude_filter_def truthy_def)

subsection \<open>The time cap\<close>

lemma time_30_45_neq_under_15 [simp]: "time_30_45 \<noteq> time_under_15"
  by (simp add: time_30_45_def time_under_15_def)

lemma length_time_cap:
  "length (time_cap t ms) \<le> length ms \<and>
   (t = time_under_15 \<longrightarrow> length (time_cap t ms) \<le> 3) \<and>
   (t = time_30_45 \<longrightarrow> length (time_cap t ms) \<le> 5)"
  by (auto simp: time_cap_def Let_def not_sym [OF time_30_45_neq_under_15])

declare keep_meal_from.simps [recipe_eval]

text \<open>Example detail records: the listed ingredients fill slots 1, 2, ..., the rest are \<open>null\<close>.\<close>

abbreviation slots :: "js_string list \<Rightarrow> nat \<Rightarrow> js_string option" where
  "slots ings \<equiv> (\<lambda>i. if 1 \<le> i \<and> i \<le> length ings then Some (ings ! (i - 1)) else None)"

abbreviation ex_detail :: "meal_id \<Rightarrow> js_string list \<Rightarrow> meal_detail" where
  "ex_detail i ings \<equiv>
     \<lparr>idMeal = i, strMeal = ''Meal '' @ i, strMealThumb = '''', strCategory = '''', strArea = '''',
      strInstructions = '''', strYoutube = None, strIngredient = slots ings, strMeasure = (\<lambda>_. None)\<rparr>"

subsection \<open>Properties of the filters\<close>

text \<open>
  C8: the exclusion callback's \<^verbatim>\<open>for\<close> loop keeps a meal exactly when none of the
  slots 1 to 20 holds a truthy ingredient whose lower-cased text includes the
  lower-cased exclusion text; the early \<^verbatim>\<open>return false\<close> does not change the answer.
\<close>

theorem keep_meal_loop:
  "keep_meal x meal \<longleftrightarrow> \<not> (\<exists>i \<in> {1..20}. slot_excluded x (strIngredient meal i))"
  by (auto simp: keep_meal_def keep_meal_from_iff)

text \<open>
  C9: the exclusion filter is the identity for an empty exclusion text; otherwise it
  keeps, in order, exactly the meals none of whose twenty ingredient slots contains the
  exclusion text as a case-insensitive substring.
\<close>

theorem exclude_filter_spec:
  "exclude_filter exclude ms =
     (if exclude = [] then ms
      else [m \<leftarrow> ms. \<not> (\<exists>i \<in> {1..20}. \<exists>s. strIngredient m i = Some s \<and>
                          sublist (js_toLowerCase exclude) (js_toLowerCase s))])"
proof (cases "exclude = []")
  case True
  then show ?thesis by (simp add: exclude_filter_def truthy_def)
next
  case False
  then have "js_toLowerCase exclude \<noteq> []" by simp
  with False show ?thesis
    by (simp add: exclude_filter_def truthy_def keep_meal_sublist cong: filter_cong)
qed

end
