(* ===== verification/Api.thy ===== *)
theory Api
  imports Resolver Filters
begin

text \<open>
  The requests of \<^verbatim>\<open>fetchRecipes\<close> to the recipe service and the computation of
  its \<^verbatim>\<open>try\<close> block (\<^verbatim>\<open>src/src/RecipeFinder.jsx\<close>, lines 53--90, without the
  state writes, which \<open>UI\<close> models). The service is an oracle \<open>service\<close>: for
  each URL the settled result of \<^verbatim>\<open>await (await fetch(url)).json()\<close>, either a
  rejection (\<open>fetch_error\<close>: the network failed or the body is not JSON) or the
  \<^verbatim>\<open>meals\<close> field of the body (\<open>MealsNull\<close> for \<open>null\<close> or absent, else the
  array). The service is taken to answer each URL the same way for the whole run; the
  requests of one batch are independent, so their order of issue does not matter and
  \<^verbatim>\<open>Promise.all\<close> is \<open>promise_all\<close> over the list of results.

  \<open>fetch_filter\<close> is the mapper of lines 54--62 (\<^verbatim>\<open>data.meals || []\<close>),
  \<open>fetch_lookup\<close> the mapper of lines 67--73 (\<^verbatim>\<open>data.meals ? data.meals[0] : null\<close>,
  where an empty array gives \<open>undefined\<close>), and \<open>fetch_pipeline\<close> chains the two
  batches, \<^verbatim>\<open>mergeMeals\<close>, \<^verbatim>\<open>filter(Boolean)\<close>, the exclusion filter and the time
  cap. A rejection anywhere is the \<open>Inl\<close> result, which the \<^verbatim>\<open>catch\<close> turns into
  the generic message.
\<close>

datatype fetch_error = NetworkError | JsonParseError

datatype 'a meals_field = MealsNull | Meals "'a list"

record service =
  filter_endpoint :: "url \<Rightarrow> fetch_error + meal_summary meals_field"
  lookup_endpoint :: "url \<Rightarrow> fetch_error + meal_detail meals_field"

definition api_base :: url where
  "api_base = ''https://www.themealdb.com/api/json/v1/1/''"

definition filter_url :: "js_string \<Rightarrow> url" where
  "filter_url ing = api_base @ ''filter.php?i='' @ encodeURIComponent ing"

definition lookup_url :: "meal_id \<Rightarrow> url" where
  "lookup_url i = api_base @ ''lookup.php?i='' @ i"

definition fetch_filter :: "service \<Rightarrow> js_string \<Rightarrow> fetch_error + meal_summary list" where
  "fetch_filter api ing =
     (case filter_endpoint api (filter_url ing) of
       Inl e \<Rightarrow> Inl e
     | Inr MealsNull \<Rightarrow> Inr []
     | Inr (Meals ms) \<Rightarrow> Inr ms)"

definition fetch_lookup :: "service \<Rightarrow> meal_summary \<Rightarrow> fetch_error + meal_detail option" where
  "fetch_lookup api meal =
     (case lookup_endpoint api (lookup_url (idMeal meal)) of
       Inl e \<Rightarrow> Inl e
     | Inr MealsNull \<Rightarrow> Inr None
     | Inr (Meals []) \<Rightarrow> Inr None
     | Inr (Meals (d # _)) \<Rightarrow> Inr (Some d))"

definition fetch_pipeline ::
  "service \<Rightarrow> js_string list \<Rightarrow> js_string \<Rightarrow> js_string \<Rightarrow> fetch_error + meal_detail list" where
  "fetch_pipeline api terms exclude time =
     (case promise_all (map (fetch_filter api) terms) of
       Inl e \<Rightarrow> Inl e
     | Inr allMealsLists \<Rightarrow>
         (let allMeals = mergeMeals allMealsLists in
          case promise_all (map (fetch_lookup api) allMeals) of
            Inl e \<Rightarrow> Inl e
          | Inr details \<Rightarrow>
              (let detailedMeals = filter_Boolean details;
                   finalMeals = exclude_filter exclude detailedMeals
               in Inr (time_cap time finalMeals))))"

text \<open>
  A service is consistent when a lookup by identifier answers with a meal of that
  identifier: the assumption under which the identifiers of the result are distinct.
\<close>

definition lookup_consistent :: "service \<Rightarrow> bool" where
  "lookup_consistent api \<longleftrightarrow>
     (\<forall>i d ds. lookup_endpoint api (lookup_url i) = Inr (Meals (d # ds)) \<longrightarrow> idMeal d = i)"

declare fetch_filter_def [recipe_eval] fetch_lookup_def [recipe_eval] fetch_pipeline_def [recipe_eval]

subsection \<open>The two batches\<close>

lemma encodeURIComponent_inj: "encodeURIComponent a = encodeURIComponent b \<longleftrightarrow> a = b"
  by (metis uri_decode_encode)

lemma filter_url_inj [simp]: "filter_url a = filter_url b \<longleftrightarrow> a = b"
  by (simp add: filter_url_def encodeURIComponent_inj)

lemma lookup_url_inj [simp]: "lookup_url a = lookup_url b \<longleftrightarrow> a = b"
  by (simp add: lookup_url_def)

lemma fetch_lookup_id:
  "lookup_consistent api \<Longrightarrow> fetch_lookup api m = Inr (Some d) \<Longrightarrow> idMeal d = idMeal m"
  by (auto simp: lookup_consistent_def fetch_lookup_def
      split: sum.splits meals_field.splits list.splits)

lemma fetch_filter_Inr:
  "fetch_filter api ing = Inr ss \<Longrightarrow> filter_endpoint api (filter_url ing) = Inr (Meals ss) \<or>
     (filter_endpoint api (filter_url ing) = Inr MealsNull \<and> ss = [])"
  by (auto simp: fetch_filter_def split: sum.splits meals_field.splits)

lemma fetch_lookup_Some:
  "fetch_lookup api s = Inr (Some m) \<Longrightarrow>
   \<exists>ds. lookup_endpoint api (lookup_url (idMeal s)) = Inr (Meals (m # ds))"
  by (auto simp: fetch_lookup_def split: sum.splits meals_field.splits list.splits)

lemma fetch_pipeline_Inr_iff:
  "fetch_pipeline api terms ex t = Inr final \<longleftrightarrow>
     (\<exists>ls ds. promise_all (map (fetch_filter api) terms) = Inr ls \<and>
              promise_all (map (fetch_lookup api) (mergeMeals ls)) = Inr ds \<and>
              final = time_cap t (exclude_filter ex (filter_Boolean ds)))"
  by (auto simp: fetch_pipeline_def Let_def split: sum.splits)

lemma fetch_pipeline_Inl_iff:
  "(\<exists>e. fetch_pipeline api terms ex t = Inl e) \<longleftrightarrow>
     (\<exists>e. promise_all (map (fetch_filter api) terms) = Inl e) \<or>
     (\<exists>ls e. promise_all (map (fetch_filter api) terms) = Inr ls \<and>
             promise_all (map (fetch_lookup api) (mergeMeals ls)) = Inl e)"
  by (auto simp: fetch_pipeline_def Let_def split: sum.splits)

lemma subseq_ids_lookups:
  "list_all2 (\<lambda>m r. \<forall>d. r = Some d \<longrightarrow> idMeal d = idMeal m) ms ds \<Longrightarrow>
   subseq (map idMeal (filter_Boolean ds)) (map idMeal ms)"
  by (induction rule: list_all2_induct) (auto split: option.splits)

lemma promise_all_list_all2:
  "promise_all (map f xs) = Inr ys \<Longrightarrow> list_all2 (\<lambda>x y. f x = Inr y) xs ys"
  by (induction xs arbitrary: ys) (auto split: sum.splits)

lemma subseq_distinct: "subseq xs ys \<Longrightarrow> distinct ys \<Longrightarrow> distinct xs"
  by (induction rule: list_emb.induct) (auto dest: list_emb_set)

lemma set_time_cap: "set (time_cap t ms) \<subseteq> set ms"
  by (auto simp: time_cap_def Let_def dest: in_set_takeD)

lemma set_exclude_filter: "set (exclude_filter ex ms) \<subseteq> set ms"
  by (auto simp: exclude_filter_def Let_def)

lemma distinct_ids_time_cap: "distinct (map f ms) \<Longrightarrow> distinct (map f (time_cap t ms))"
  by (auto simp: time_cap_def Let_def)

lemma distinct_ids_exclude_filter:
  "distinct (map f ms) \<Longrightarrow> distinct (map f (exclude_filter ex ms))"
  by (auto simp: exclude_filter_def Let_def distinct_map_filter)

lemma Inl_in_map_iff: "Inl e \<in> set (map f xs) \<longleftrightarrow> (\<exists>x \<in> set xs. f x = Inl e)"
  by (induction xs) auto

lemma fetch_pipeline_final_from:
  "fetch_pipeline api terms ex t = Inr final \<Longrightarrow>
   \<exists>ls ds. promise_all (map (fetch_filter api) terms) = Inr ls \<and>
          promise_all (map (fetch_lookup api) (mergeMeals ls)) = Inr ds \<and>
          set final \<subseteq> set (exclude_filter ex (filter_Boolean ds)) \<and>
          set (exclude_filter ex (filter_Boolean ds)) \<subseteq> set (filter_Boolean ds)"
proof -
  assume "fetch_pipeline api terms ex t = Inr final"
  then obtain ls ds where a: "promise_all (map (fetch_filter api) terms) = Inr ls"
    and b: "promise_all (map (fetch_lookup api) (mergeMeals ls)) = Inr ds"
    and f: "final = time_cap t (exclude_filter ex (filter_Boolean ds))"
    unfolding fetch_pipeline_Inr_iff by blast
  have "set final \<subseteq> set (exclude_filter ex (filter_Boolean ds))"
    unfolding f by (rule set_time_cap)
  with a b set_exclude_filter show ?thesis by blast
qed

subsection \<open>The abstract search and the service's reading of a query\<close>

text \<open>
  The contract of the search (the spec's aggregator, steps 1--5): concatenate the
  summaries found for the terms in term order, keep the first occurrence of each
  identifier, replace each by its detail record where there is one, filter and cap.
  \<open>found\<close> and \<open>details\<close> abstract a service that answers every request.
\<close>

definition search_spec ::
  "(js_string \<Rightarrow> meal_summary list) \<Rightarrow> (meal_summary \<Rightarrow> meal_detail option) \<Rightarrow>
   js_string list \<Rightarrow> js_string \<Rightarrow> js_string \<Rightarrow> meal_detail list" where
  "search_spec found details terms ex t =
     time_cap t (exclude_filter ex (filter_Boolean
       (map details (first_occurrences idMeal (concat (map found terms))))))"

definition service_total :: "service \<Rightarrow> bool" where
  "service_total api \<longleftrightarrow> (\<forall>u. \<not> isl (filter_endpoint api u) \<and> \<not> isl (lookup_endpoint api u))"

definition found_by :: "service \<Rightarrow> js_string \<Rightarrow> meal_summary list" where
  "found_by api ing = (case fetch_filter api ing of Inr ms \<Rightarrow> ms | Inl _ \<Rightarrow> [])"

definition details_by :: "service \<Rightarrow> meal_summary \<Rightarrow> meal_detail option" where
  "details_by api m = (case fetch_lookup api m of Inr d \<Rightarrow> d | Inl _ \<Rightarrow> None)"

text \<open>
  How the service reads the parameter \<^verbatim>\<open>i\<close> of a request to \<open>path\<close>: the text up
  to the next \<^verbatim>\<open>&\<close> or \<^verbatim>\<open>#\<close>, percent-decoded.
\<close>

definition query_i :: "url \<Rightarrow> url \<Rightarrow> js_string option" where
  "query_i path u =
     (if prefix (path @ ''?i='') u
      then Some (uri_decode (takeWhile (\<lambda>c. c \<noteq> CHR ''&'' \<and> c \<noteq> CHR ''#'') (drop (length path + 3) u)))
      else None)"

declare query_i_def [recipe_eval]

lemma fetch_filter_total: "service_total api \<Longrightarrow> fetch_filter api ing = Inr (found_by api ing)"
proof -
  assume "service_total api"
  then have "\<not> isl (filter_endpoint api (filter_url ing))" by (simp add: service_total_def)
  then show ?thesis
    by (auto simp: fetch_filter_def found_by_def split: sum.splits meals_field.splits)
qed

lemma fetch_lookup_total: "service_total api \<Longrightarrow> fetch_lookup api m = Inr (details_by api m)"
proof -
  assume "service_total api"
  then have "\<not> isl (lookup_endpoint api (lookup_url (idMeal m)))" by (simp add: service_total_def)
  then show ?thesis
    by (auto simp: fetch_lookup_def details_by_def split: sum.splits meals_field.splits list.splits)
qed

lemma promise_all_map_Inl_iff:
  "(\<exists>e. promise_all (map f xs) = Inl e) \<longleftrightarrow> (\<exists>x \<in> set xs. \<exists>e. f x = Inl e)"
  unfolding promise_all_Inl_iff Inl_in_map_iff by blast

lemma ex_conj_Inl:
  "(\<exists>ls e. A ls \<and> P ls = Inl e) \<longleftrightarrow> (\<exists>ls. A ls \<and> (\<exists>e. P ls = Inl e))"
  by blast

lemma promise_all_filter_total:
  "service_total api \<Longrightarrow> promise_all (map (fetch_filter api) terms) = Inr (map (found_by api) terms)"
proof -
  assume tot: "service_total api"
  have eq: "map (fetch_filter api) terms = map Inr (map (found_by api) terms)"
    unfolding map_map by (rule map_cong) (simp_all add: fetch_filter_total [OF tot])
  show ?thesis by (simp only: eq promise_all_map_Inr)
qed

lemma promise_all_lookup_total:
  "service_total api \<Longrightarrow> promise_all (map (fetch_lookup api) ms) = Inr (map (details_by api) ms)"
proof -
  assume tot: "service_total api"
  have eq: "map (fetch_lookup api) ms = map Inr (map (details_by api) ms)"
    unfolding map_map by (rule map_cong) (simp_all add: fetch_lookup_total [OF tot])
  show ?thesis by (simp only: eq promise_all_map_Inr)
qed

lemma encode_no_amp_hash:
  "c \<in> set (encodeURIComponent s) \<Longrightarrow> c \<noteq> CHR ''&'' \<and> c \<noteq> CHR ''#''"
  using encodeURIComponent_safe [of c s] by (auto simp: uri_safe_char_def recipe_eval)

lemma distinct_ids_fetch_pipeline:
  assumes "lookup_consistent api" and "fetch_pipeline api terms ex t = Inr final"
  shows "distinct (map idMeal final)"
proof -
  obtain ls ds where ls: "promise_all (map (fetch_filter api) terms) = Inr ls"
    and ds: "promise_all (map (fetch_lookup api) (mergeMeals ls)) = Inr ds"
    and final: "final = time_cap t (exclude_filter ex (filter_Boolean ds))"
    using assms(2) by (auto simp: fetch_pipeline_Inr_iff)
  have "list_all2 (\<lambda>m r. fetch_lookup api m = Inr r) (mergeMeals ls) ds"
    using ds by (rule promise_all_list_all2)
  then have "list_all2 (\<lambda>m r. \<forall>d. r = Some d \<longrightarrow> idMeal d = idMeal m) (mergeMeals ls) ds"
    by (rule list_all2_mono) (use fetch_lookup_id [OF assms(1)] in blast)
  then have "subseq (map idMeal (filter_Boolean ds)) (map idMeal (mergeMeals ls))"
    by (rule subseq_ids_lookups)
  moreover have "distinct (map idMeal (mergeMeals ls))"
    by (simp add: mergeMeals_def fold_mergeMeals_step distinct_first_occurrences)
  ultimately have "distinct (map idMeal (filter_Boolean ds))" by (rule subseq_distinct)
  then show ?thesis
    unfolding final by (intro distinct_ids_time_cap distinct_ids_exclude_filter)
qed

subsection \<open>An example service\<close>

text \<open>
  A service with three ingredient lists and nine detail records (two mention beef, in
  different case), a total and consistent service; and one whose every request rejects.
\<close>

definition ex_summary :: "meal_id \<Rightarrow> meal_summary" where
  "ex_summary i = \<lparr>idMeal = i, strMeal = ''Meal '' @ i, strMealThumb = ''''\<rparr>"

definition ex_details :: "meal_detail list" where
  "ex_details =
     [ex_detail ''1'' [''Chicken'', ''Salt''], ex_detail ''2'' [''Chicken'', ''Rice''],
      ex_detail ''3'' [''Rice'', ''Beans''], ex_detail ''4'' [''Beef'', ''Chili''],
      ex_detail ''5'' [''Chili'', ''Tomato''], ex_detail ''6'' [''Minced BEEF'', ''Chili''],
      ex_detail ''7'' [''Chili'', ''Chicken''], ex_detail ''8'' [''Chili'', ''Rice''],
      ex_detail ''9'' [''Chili'', ''Beans'']]"

definition ex_service :: service where
  "ex_service =
     \<lparr>filter_endpoint = (\<lambda>u.
        if u = filter_url ''chicken'' then Inr (Meals [ex_summary ''1'', ex_summary ''2''])
        else if u = filter_url ''rice'' then Inr (Meals [ex_summary ''2'', ex_summary ''3''])
        else if u = filter_url ''chili'' then Inr (Meals (map ex_summary [''4'', ''5'', ''6'', ''7'', ''8'', ''9'']))
        else Inr MealsNull),
      lookup_endpoint = (\<lambda>u.
        case find (\<lambda>d. lookup_url (idMeal d) = u) ex_details of
          Some d \<Rightarrow> Inr (Meals [d])
        | None \<Rightarrow> Inr MealsNull)\<rparr>"

definition fail_service :: service where
  "fail_service = \<lparr>filter_endpoint = (\<lambda>_. Inl NetworkError), lookup_endpoint = (\<lambda>_. Inl NetworkError)\<rparr>"

declare ex_summary_def [recipe_eval] ex_details_def [recipe_eval] ex_service_def [recipe_eval]
  fail_service_def [recipe_eval]

lemma ex_service_spicy:
  "fetch_pipeline ex_service [''chili''] ''beef'' ''Under 15 minutes'' =
     Inr [ex_detail ''5'' [''Chili'', ''Tomato''], ex_detail ''7'' [''Chili'', ''Chicken''],
          ex_detail ''8'' [''Chili'', ''Rice'']]"
  by (simp add: recipe_eval)

lemma ex_service_total: "service_total ex_service"
  by (simp add: service_total_def ex_service_def split: option.splits)

lemma ex_service_consistent: "lookup_consistent ex_service"
  by (auto simp: lookup_consistent_def ex_service_def find_Some_iff split: option.splits)

subsection \<open>Properties of the requests\<close>

text \<open>
  C10: the search fails exactly when one of the ingredient requests rejects, or all of
  them succeed and one of the detail requests for the merged meals rejects: one failed
  request discards the whole batch and every other result.
\<close>

theorem fetch_pipeline_fails:
  "(\<exists>e. fetch_pipeline api terms ex t = Inl e) \<longleftrightarrow>
     (\<exists>ing \<in> set terms. \<exists>e. fetch_filter api ing = Inl e) \<or>
     (\<exists>ls. promise_all (map (fetch_filter api) terms) = Inr ls \<and>
           (\<exists>m \<in> set (mergeMeals ls). \<exists>e. fetch_lookup api m = Inl e))"
  unfolding fetch_pipeline_Inl_iff ex_conj_Inl promise_all_map_Inl_iff by (rule refl)

text \<open>
  C11: when the exclusion text is non-empty, no meal of a successful search has an
  ingredient slot containing it (case-insensitively).
\<close>

theorem fetch_pipeline_excluded:
  assumes "fetch_pipeline api terms ex t = Inr final" and "ex \<noteq> []" and "m \<in> set final"
  shows "\<not> (\<exists>i \<in> {1..20}. \<exists>s. strIngredient m i = Some s \<and>
              sublist (js_toLowerCase ex) (js_toLowerCase s))"
proof -
  obtain ls ds where "set final \<subseteq> set (exclude_filter ex (filter_Boolean ds))"
    using fetch_pipeline_final_from [OF assms(1)] by blast
  with assms(3) have "m \<in> set (exclude_filter ex (filter_Boolean ds))" by blast
  with assms(2) show ?thesis by (rule exclude_filter_member)
qed

theorem fetch_pipeline_excluded_witness:
  "ex_detail ''5'' [''Chili'', ''Tomato''] \<in> set (projr (fetch_pipeline ex_service [''chili''] ''beef'' ''Under 15 minutes'')) \<and>
   \<not> (\<exists>i \<in> {1..20}. \<exists>s. strIngredient (ex_detail ''5'' [''Chili'', ''Tomato'']) i = Some s \<and>
        sublist (js_toLowerCase ''beef'') (js_toLowerCase s))"
proof -
  have m: "ex_detail ''5'' [''Chili'', ''Tomato''] \<in> set (projr (fetch_pipeline ex_service [''chili''] ''beef'' ''Under 15 minutes''))"
    by (simp add: ex_service_spicy)
  have "\<not> (\<exists>i \<in> {1..20}. \<exists>s. strIngredient (ex_detail ''5'' [''Chili'', ''Tomato'']) i = Some s \<and>
        sublist (js_toLowerCase ''beef'') (js_toLowerCase s))"
    by (rule fetch_pipeline_excluded [OF ex_service_spicy]) simp_all
  with m show ?thesis by blast
qed

text \<open>
  C12: a successful search under \<^verbatim>\<open>Under 15 minutes\<close> returns at most three meals,
  under \<^verbatim>\<open>30--45 minutes\<close> at most five, whatever the service returns.
\<close>

theorem fetch_pipeline_bound:
  "fetch_pipeline api terms ex t = Inr final \<Longrightarrow>
   (t = ''Under 15 minutes'' \<longrightarrow> length final \<le> 3) \<and> (t = time_30_45 \<longrightarrow> length final \<le> 5)"
  using length_time_cap by (auto simp: fetch_pipeline_Inr_iff time_under_15_def)

theorem fetch_pipeline_bound_witness:
  "length (projr (fetch_pipeline ex_service [''chili''] ''beef'' ''Under 15 minutes'')) \<le> 3"
  using fetch_pipeline_bound [OF ex_service_spicy] by (simp add: ex_service_spicy)

text \<open>
  C13: if the service answers a lookup by identifier with a meal of that identifier, no
  two meals of a successful search share an \<^verbatim>\<open>idMeal\<close> (the React \<^verbatim>\<open>key\<close> of a
  card).
\<close>

theorem fetch_pipeline_distinct:
  assumes "lookup_consistent api" and "fetch_pipeline api terms ex t = Inr final"
  shows "distinct (map idMeal final)"
  using assms by (rule distinct_ids_fetch_pipeline)

theorem fetch_pipeline_distinct_witness:
  "distinct (map idMeal (projr (fetch_pipeline ex_service [''chili''] ''beef'' ''Under 15 minutes'')))"
  using fetch_pipeline_distinct [OF ex_service_consistent ex_service_spicy] by (simp add: ex_service_spicy)

text \<open>
  C14: every meal of a successful search is the first detail record that the service sent
  back to the lookup request for a summary that the service listed in its answer to the
  ingredient request of one of the search terms.
\<close>

theorem fetch_pipeline_provenance:
  assumes "fetch_pipeline api terms ex t = Inr final" and "m \<in> set final"
  shows "\<exists>ing \<in> set terms. \<exists>ss s ds. filter_endpoint api (filter_url ing) = Inr (Meals ss) \<and>
           s \<in> set ss \<and> lookup_endpoint api (lookup_url (idMeal s)) = Inr (Meals (m # ds))"
proof -
  obtain ls ds where ls: "promise_all (map (fetch_filter api) terms) = Inr ls"
    and ds: "promise_all (map (fetch_lookup api) (mergeMeals ls)) = Inr ds"
    and sub: "set final \<subseteq> set (exclude_filter ex (filter_Boolean ds))"
      "set (exclude_filter ex (filter_Boolean ds)) \<subseteq> set (filter_Boolean ds)"
    using fetch_pipeline_final_from [OF assms(1)] by blast
  from assms(2) sub have "Some m \<in> set ds" by auto
  then have "Inr (Some m) \<in> set (map (fetch_lookup api) (mergeMeals ls))"
    using ds by (simp add: promise_all_Inr_iff)
  then obtain s where s: "s \<in> set (mergeMeals ls)" and look: "fetch_lookup api s = Inr (Some m)"
    by auto
  have "set (mergeMeals ls) \<subseteq> set (concat ls)"
    using set_first_occurrences [of idMeal "concat ls"]
    by (simp add: mergeMeals_def fold_mergeMeals_step)
  with s obtain ss where ss: "ss \<in> set ls" "s \<in> set ss" by auto
  have "Inr ss \<in> set (map (fetch_filter api) terms)"
    using ls ss(1) by (simp add: promise_all_Inr_iff)
  then obtain ing where ing: "ing \<in> set terms" "fetch_filter api ing = Inr ss" by auto
  from fetch_filter_Inr [OF ing(2)] ss(2)
  have "filter_endpoint api (filter_url ing) = Inr (Meals ss)" by auto
  with ing(1) ss(2) fetch_lookup_Some [OF look] show ?thesis by blast
qed

theorem fetch_pipeline_provenance_witness:
  "\<exists>ing \<in> set [''chili'']. \<exists>ss s ds. filter_endpoint ex_service (filter_url ing) = Inr (Meals ss) \<and>
     s \<in> set ss \<and> lookup_endpoint ex_service (lookup_url (idMeal s)) =
       Inr (Meals (ex_detail ''7'' [''Chili'', ''Chicken''] # ds))"
  by (rule fetch_pipeline_provenance [OF ex_service_spicy]) simp

text \<open>
  C15: against a service that answers every request, the search computes its contract
  \<open>search_spec\<close>: the loop of \<^verbatim>\<open>mergeMeals\<close> and the two \<^verbatim>\<open>Promise.all\<close>
  batches refine the first-occurrence merge of the found summaries, hydrated, filtered
  and capped.
\<close>

theorem fetch_pipeline_refines:
  "service_total api \<Longrightarrow>
   fetch_pipeline api terms ex t = Inr (search_spec (found_by api) (details_by api) terms ex t)"
  by (simp add: fetch_pipeline_def search_spec_def promise_all_filter_total promise_all_lookup_total
      mergeMeals_def fold_mergeMeals_step)

theorem fetch_pipeline_refines_witness:
  "fetch_pipeline ex_service [''chicken'', ''rice''] '''' '''' =
     Inr (search_spec (found_by ex_service) (details_by ex_service) [''chicken'', ''rice''] '''' '''')"
  by (rule fetch_pipeline_refines [OF ex_service_total])

text \<open>
  C16: the service reads back from an ingredient request exactly the term the code
  encoded: \<^verbatim>\<open>encodeURIComponent\<close> leaves no \<^verbatim>\<open>&\<close> or \<^verbatim>\<open>#\<close> that would end
  the parameter, and percent-decoding inverts it.
\<close>

theorem filter_url_roundtrip:
  "query_i (api_base @ ''filter.php'') (filter_url ing) = Some ing"
proof -
  have "takeWhile (\<lambda>c. c \<noteq> CHR ''&'' \<and> c \<noteq> CHR ''#'') (encodeURIComponent ing) = encodeURIComponent ing"
    using encode_no_amp_hash by (simp add: takeWhile_eq_all_conv)
  then show ?thesis by (simp add: query_i_def filter_url_def del: takeWhile_eq_all_conv)
qed

text \<open>
  C17: the lookup request interpolates the identifier without encoding it, so the service
  never reads back an identifier that holds \<^verbatim>\<open>&\<close> or \<^verbatim>\<open>#\<close>: the
  parameter ends at that character, and what is left decodes to a shorter text. For
  \<^verbatim>\<open>52772&i=1\<close> the service reads \<^verbatim>\<open>52772\<close>.
\<close>

theorem lookup_url_unencoded:
  assumes "CHR ''&'' \<in> set i \<or> CHR ''#'' \<in> set i"
  shows "query_i (api_base @ ''lookup.php'') (lookup_url i) \<noteq> Some i"
proof -
  let ?P = "\<lambda>c. c \<noteq> CHR ''&'' \<and> c \<noteq> CHR ''#''"
  have q: "query_i (api_base @ ''lookup.php'') (lookup_url i) = Some (uri_decode (takeWhile ?P i))"
    by (simp add: query_i_def lookup_url_def)
  have "length (takeWhile ?P i) < length i"
    using assms by (auto intro: length_takeWhile_less)
  then have "length (uri_decode (takeWhile ?P i)) < length i"
    using length_uri_decode_le le_less_trans by blast
  then have "uri_decode (takeWhile ?P i) \<noteq> i" by (metis less_irrefl)
  with q show ?thesis by (simp only: option.inject not_False_eq_True)
qed

theorem lookup_url_unencoded_witness:
  "query_i (api_base @ ''lookup.php'') (lookup_url ''52772&i=1'') \<noteq> Some ''52772&i=1''"
proof (rule lookup_url_unencoded)
  show "CHR ''&'' \<in> set ''52772&i=1'' \<or> CHR ''#'' \<in> set ''52772&i=1''" by (simp only: list.set insert_iff simp_thms)
qed

end
