(* ===== verification/UI.thy ===== *)
theory UI
  imports Api
begin

text \<open>
  The React component \<^verbatim>\<open>RecipeFinder\<close> (\<^verbatim>\<open>src/src/RecipeFinder.jsx\<close>) as a
  state machine. \<open>ui_state\<close> holds its eight \<^verbatim>\<open>useState\<close> hooks (lines 5--12,
  initial values as there). A click on \<^verbatim>\<open>Get Recipes\<close> runs the synchronous part
  of \<^verbatim>\<open>fetchRecipes\<close> up to its first \<^verbatim>\<open>await\<close> (lines 35--51,
  \<open>fetchRecipes_start\<close>): it resolves the terms, takes the early return of the
  empty-list guard or clears the state and sets \<^verbatim>\<open>loading\<close>, and leaves a search in
  flight that has captured the terms and the \<^verbatim>\<open>exclude\<close> and \<^verbatim>\<open>time\<close> of the
  closure. A search settles later (\<open>fetchRecipes_finish\<close>, lines 53--99): its state
  writes are batched, so they form one step. Between the two, the user can edit the
  inputs, which stay enabled; the button is \<^verbatim>\<open>disabled={loading}\<close> (line 162),
  cards exist only for the current meals (lines 171--180) and the popup only when a meal
  is selected (lines 184--230). A click on the overlay or on the close button
  (\<open>ClosePopup\<close>, lines 185 and 187) closes the popup; a click inside it
  (\<open>ClickPopupContent\<close>, line 186) stops its propagation to the overlay and changes
  nothing. The selects deliver one of their option values.

  \<open>runtime\<close> pairs the hook state with the searches in flight, \<open>dispatch\<close> is the
  handler of each event (\<open>None\<close> where the event cannot happen), \<open>run\<close> a sequence
  of events, and \<open>reachable\<close> the states reachable from the initial one. The lemmas
  prove the invariant \<open>ui_inv\<close> of every reachable state by rule induction: at most
  one search is in flight, exactly while \<^verbatim>\<open>loading\<close> is set; while loading, no meal,
  no selection and no message is shown; the selected meal is one of the shown meals;
  the selects hold option values; the message is empty, the empty-result message or
  the failure message. They also prove that the searches in flight are well-formed and
  where the shown meals come from, and run the example events; the properties built
  on these are in \<open>UI_Properties\<close>.
\<close>

record ui_state =
  ingredients :: js_string
  exclude :: js_string
  mood :: js_string
  time :: js_string
  meals :: "meal_detail list"
  loading :: bool
  error :: js_string
  selectedMeal :: "meal_detail option"

definition initial_state :: ui_state where
  "initial_state =
     \<lparr>ingredients = '''', exclude = '''', mood = '''', time = '''', meals = [], loading = False,
      error = '''', selectedMeal = None\<rparr>"

text \<open>What a search in flight has captured when it was started.\<close>

record pending_search =
  search_terms :: "js_string list"
  search_exclude :: js_string
  search_time :: js_string

record runtime =
  view :: ui_state
  inflight :: "pending_search list"

definition msg_no_input :: js_string where
  "msg_no_input = ''Please enter at least one ingredient or choose a mood!''"

definition msg_no_results :: js_string where
  "msg_no_results = ''No recipes found for your filters.''"

definition msg_failure :: js_string where
  "msg_failure = ''Something went wrong. Please try again.''"

definition mood_options :: "js_string list" where
  "mood_options = ['''', ''Comfort Food'', ''Spicy'', ''Quick Meal'', ''Healthy'']"

definition time_options :: "js_string list" where
  "time_options = ['''', ''Under 15 minutes'', time_30_45, ''1 hour or more'']"

definition fetchRecipes_start :: "ui_state \<Rightarrow> ui_state \<times> pending_search option" where
  "fetchRecipes_start s =
     (let terms = baseIngredients (ingredients s) (mood s) in
      if length terms = 0 then (s\<lparr>error := msg_no_input\<rparr>, None)
      else (s\<lparr>loading := True, error := '''', meals := [], selectedMeal := None\<rparr>,
            Some \<lparr>search_terms = terms, search_exclude = exclude s, search_time = time s\<rparr>))"

definition fetchRecipes_finish :: "service \<Rightarrow> pending_search \<Rightarrow> ui_state \<Rightarrow> ui_state" where
  "fetchRecipes_finish api p s =
     (case fetch_pipeline api (search_terms p) (search_exclude p) (search_time p) of
       Inl _ \<Rightarrow> s\<lparr>error := msg_failure, loading := False\<rparr>
     | Inr finalMeals \<Rightarrow>
         s\<lparr>meals := finalMeals,
           error := (if length finalMeals = 0 then msg_no_results else error s),
           loading := False\<rparr>)"

datatype ui_event =
    ChangeIngredients js_string
  | ChangeMood js_string
  | ChangeTime js_string
  | ChangeExclude js_string
  | ClickGetRecipes
  | ClickCard nat
  | ClosePopup
  | ClickPopupContent
  | SearchSettles nat

fun dispatch :: "service \<Rightarrow> runtime \<Rightarrow> ui_event \<Rightarrow> runtime option" where
  "dispatch api r (ChangeIngredients v) = Some (r\<lparr>view := (view r)\<lparr>ingredients := v\<rparr>\<rparr>)"
| "dispatch api r (ChangeMood v) =
     (if v \<in> set mood_options then Some (r\<lparr>view := (view r)\<lparr>mood := v\<rparr>\<rparr>) else None)"
| "dispatch api r (ChangeTime v) =
     (if v \<in> set time_options then Some (r\<lparr>view := (view r)\<lparr>time := v\<rparr>\<rparr>) else None)"
| "dispatch api r (ChangeExclude v) = Some (r\<lparr>view := (view r)\<lparr>exclude := v\<rparr>\<rparr>)"
| "dispatch api r ClickGetRecipes =
     (if loading (view r) then None
      else (case fetchRecipes_start (view r) of
              (s, None) \<Rightarrow> Some (r\<lparr>view := s\<rparr>)
            | (s, Some p) \<Rightarrow> Some \<lparr>view = s, inflight = inflight r @ [p]\<rparr>))"
| "dispatch api r (ClickCard i) =
     (if i < length (meals (view r))
      then Some (r\<lparr>view := (view r)\<lparr>selectedMeal := Some (meals (view r) ! i)\<rparr>\<rparr>) else None)"
| "dispatch api r ClosePopup =
     (if selectedMeal (view r) \<noteq> None then Some (r\<lparr>view := (view r)\<lparr>selectedMeal := None\<rparr>\<rparr>)
      else None)"
| "dispatch api r ClickPopupContent = (if selectedMeal (view r) \<noteq> None then Some r else None)"
| "dispatch api r (SearchSettles i) =
     (if i < length (inflight r)
      then Some \<lparr>view = fetchRecipes_finish api (inflight r ! i) (view r),
                 inflight = take i (inflight r) @ drop (Suc i) (inflight r)\<rparr>
      else None)"

fun run :: "service \<Rightarrow> runtime \<Rightarrow> ui_event list \<Rightarrow> runtime option" where
  "run api r [] = Some r"
| "run api r (e # es) = (case dispatch api r e of None \<Rightarrow> None | Some r' \<Rightarrow> run api r' es)"

definition initial_runtime :: runtime where
  "initial_runtime = \<lparr>view = initial_state, inflight = []\<rparr>"

inductive reachable :: "service \<Rightarrow> runtime \<Rightarrow> bool" for api where
  init: "reachable api initial_runtime"
| step: "reachable api r \<Longrightarrow> dispatch api r e = Some r' \<Longrightarrow> reachable api r'"

definition ui_inv :: "runtime \<Rightarrow> bool" where
  "ui_inv r \<longleftrightarrow>
     length (inflight r) \<le> 1 \<and>
     (loading (view r) \<longleftrightarrow> inflight r \<noteq> []) \<and>
     (loading (view r) \<longrightarrow> meals (view r) = [] \<and> selectedMeal (view r) = None \<and> error (view r) = '''') \<and>
     set_option (selectedMeal (view r)) \<subseteq> set (meals (view r)) \<and>
     mood (view r) \<in> set mood_options \<and> time (view r) \<in> set time_options \<and>
     error (view r) \<in> {'''', msg_no_results, msg_failure}"

text \<open>
  A search in flight is well-formed: it has at least one term, every term is non-empty,
  trimmed and free of commas, and its time is one of the options of the select.
\<close>

definition search_wf :: "pending_search \<Rightarrow> bool" where
  "search_wf p \<longleftrightarrow>
     search_terms p \<noteq> [] \<and>
     list_all (\<lambda>t. t \<noteq> [] \<and> js_trim t = t \<and> CHR '','' \<notin> set t) (search_terms p) \<and>
     search_time p \<in> set time_options"

declare initial_state_def [recipe_eval] initial_runtime_def [recipe_eval]
  msg_no_input_def [recipe_eval] msg_no_results_def [recipe_eval] msg_failure_def [recipe_eval]
  mood_options_def [recipe_eval] time_options_def [recipe_eval]
  fetchRecipes_start_def [recipe_eval] fetchRecipes_finish_def [recipe_eval]

subsection \<open>The handlers\<close>

lemma fetchRecipes_start_eq:
  "fetchRecipes_start s =
     (s\<lparr>loading := True, error := '''', meals := [], selectedMeal := None\<rparr>,
      Some \<lparr>search_terms = baseIngredients (ingredients s) (mood s),
            search_exclude = exclude s, search_time = time s\<rparr>)"
  by (simp add: fetchRecipes_start_def Let_def)

lemma dispatch_ClickGetRecipes:
  "dispatch api r ClickGetRecipes =
     (if loading (view r) then None
      else Some \<lparr>view = (view r)\<lparr>loading := True, error := '''', meals := [], selectedMeal := None\<rparr>,
                 inflight = inflight r @
                   [\<lparr>search_terms = baseIngredients (ingredients (view r)) (mood (view r)),
                     search_exclude = exclude (view r), search_time = time (view r)\<rparr>]\<rparr>)"
  by (simp add: fetchRecipes_start_eq)

text \<open>
  The handler of each event as an elimination rule: which event it was, the guard it
  passed and the state it produced. The proofs of the component reason by this rule.
\<close>

lemma dispatch_SomeE [consumes 1, case_names ChangeIngredients ChangeMood ChangeTime ChangeExclude
    ClickGetRecipes ClickCard ClosePopup ClickPopupContent SearchSettles]:
  assumes "dispatch api r e = Some r'"
  obtains (ChangeIngredients) v where "e = ChangeIngredients v" "r' = r\<lparr>view := (view r)\<lparr>ingredients := v\<rparr>\<rparr>"
  | (ChangeMood) v where "e = ChangeMood v" "v \<in> set mood_options" "r' = r\<lparr>view := (view r)\<lparr>mood := v\<rparr>\<rparr>"
  | (ChangeTime) v where "e = ChangeTime v" "v \<in> set time_options" "r' = r\<lparr>view := (view r)\<lparr>time := v\<rparr>\<rparr>"
  | (ChangeExclude) v where "e = ChangeExclude v" "r' = r\<lparr>view := (view r)\<lparr>exclude := v\<rparr>\<rparr>"
  | (ClickGetRecipes) "e = ClickGetRecipes" "\<not> loading (view r)"
      "r' = \<lparr>view = (view r)\<lparr>loading := True, error := '''', meals := [], selectedMeal := None\<rparr>,
             inflight = inflight r @
               [\<lparr>search_terms = baseIngredients (ingredients (view r)) (mood (view r)),
                 search_exclude = exclude (view r), search_time = time (view r)\<rparr>]\<rparr>"
  | (ClickCard) i where "e = ClickCard i" "i < length (meals (view r))"
      "r' = r\<lparr>view := (view r)\<lparr>selectedMeal := Some (meals (view r) ! i)\<rparr>\<rparr>"
  | (ClosePopup) m where "e = ClosePopup" "selectedMeal (view r) = Some m"
      "r' = r\<lparr>view := (view r)\<lparr>selectedMeal := None\<rparr>\<rparr>"
  | (ClickPopupContent) "e = ClickPopupContent" "selectedMeal (view r) \<noteq> None" "r' = r"
  | (SearchSettles) i where "e = SearchSettles i" "i < length (inflight r)"
      "r' = \<lparr>view = fetchRecipes_finish api (inflight r ! i) (view r),
             inflight = take i (inflight r) @ drop (Suc i) (inflight r)\<rparr>"
  using assms by (cases e) (auto simp: fetchRecipes_start_eq split: if_splits)

lemma fetchRecipes_finish_fields:
  "\<not> loading (fetchRecipes_finish api p s) \<and>
   selectedMeal (fetchRecipes_finish api p s) = selectedMeal s \<and>
   ingredients (fetchRecipes_finish api p s) = ingredients s \<and>
   exclude (fetchRecipes_finish api p s) = exclude s \<and>
   mood (fetchRecipes_finish api p s) = mood s \<and>
   time (fetchRecipes_finish api p s) = time s"
  by (simp add: fetchRecipes_finish_def split: sum.splits)

lemma fetchRecipes_finish_Inl:
  "fetch_pipeline api (search_terms p) (search_exclude p) (search_time p) = Inl e \<Longrightarrow>
   meals (fetchRecipes_finish api p s) = meals s \<and> error (fetchRecipes_finish api p s) = msg_failure"
  by (simp add: fetchRecipes_finish_def)

lemma fetchRecipes_finish_Inr:
  "fetch_pipeline api (search_terms p) (search_exclude p) (search_time p) = Inr final \<Longrightarrow>
   meals (fetchRecipes_finish api p s) = final \<and>
   error (fetchRecipes_finish api p s) = (if final = [] then msg_no_results else error s)"
  by (simp add: fetchRecipes_finish_def)

lemma error_fetchRecipes_finish:
  "error (fetchRecipes_finish api p s) \<in> {error s, msg_no_results, msg_failure}"
  by (simp add: fetchRecipes_finish_def split: sum.splits)

subsection \<open>The invariant\<close>

lemma ui_inv_initial: "ui_inv initial_runtime"
  by (simp add: ui_inv_def initial_runtime_def initial_state_def mood_options_def time_options_def)

lemma ui_inv_settle:
  assumes inv: "ui_inv r" and i: "i < length (inflight r)"
  shows "ui_inv \<lparr>view = fetchRecipes_finish api (inflight r ! i) (view r),
                 inflight = take i (inflight r) @ drop (Suc i) (inflight r)\<rparr>"
proof -
  from inv i have one: "inflight r = [inflight r ! 0]" and i0: "i = 0"
    by (auto simp: ui_inv_def length_Suc_conv le_Suc_eq)
  from inv i have clear: "meals (view r) = []" "selectedMeal (view r) = None" "error (view r) = ''''"
    by (auto simp: ui_inv_def)
  have err: "error (fetchRecipes_finish api (inflight r ! i) (view r)) \<in> {'''', msg_no_results, msg_failure}"
    using error_fetchRecipes_finish [of api "inflight r ! i" "view r"] clear(3) by auto
  show ?thesis
    using inv err clear(2) fetchRecipes_finish_fields [of api "inflight r ! i" "view r"] i0 one
    by (auto simp: ui_inv_def)
qed

lemma ui_inv_click:
  assumes inv: "ui_inv r" and idle: "\<not> loading (view r)"
  shows "ui_inv \<lparr>view = (view r)\<lparr>loading := True, error := '''', meals := [], selectedMeal := None\<rparr>,
                 inflight = inflight r @ [p]\<rparr>"
  using inv idle by (simp add: ui_inv_def)

lemma ui_inv_dispatch:
  assumes inv: "ui_inv r" and d: "dispatch api r e = Some r'"
  shows "ui_inv r'"
  using d
proof (cases rule: dispatch_SomeE)
  case ClickGetRecipes
  with inv show ?thesis by (simp add: ui_inv_click)
next
  case (ClickCard i)
  moreover from inv ClickCard(2) have "\<not> loading (view r)" by (auto simp: ui_inv_def)
  ultimately show ?thesis using inv by (simp add: ui_inv_def)
next
  case (SearchSettles i)
  with inv show ?thesis by (simp add: ui_inv_settle)
qed (use inv in \<open>auto simp: ui_inv_def\<close>)

lemma reachable_ui_inv: "reachable api r \<Longrightarrow> ui_inv r"
proof (induction rule: reachable.induct)
  case init
  show ?case by (rule ui_inv_initial)
next
  case (step r e r')
  then show ?case by (blast intro: ui_inv_dispatch)
qed

lemma dispatch_inflight_cases:
  "dispatch api r e = Some r' \<Longrightarrow>
   set (inflight r') \<subseteq> set (inflight r) \<or>
   inflight r' = inflight r @ [\<lparr>search_terms = baseIngredients (ingredients (view r)) (mood (view r)),
                                search_exclude = exclude (view r), search_time = time (view r)\<rparr>]"
  by (erule dispatch_SomeE) (simp_all add: set_take_subset set_drop_subset)

lemma reachable_inflight_wf: "reachable api r \<Longrightarrow> list_all search_wf (inflight r)"
proof (induction rule: reachable.induct)
  case init
  then show ?case by (simp add: initial_runtime_def)
next
  case (step r e r')
  have "time (view r) \<in> set time_options"
    using reachable_ui_inv [OF step.hyps(1)] by (simp add: ui_inv_def)
  then have "search_wf \<lparr>search_terms = baseIngredients (ingredients (view r)) (mood (view r)),
                        search_exclude = exclude (view r), search_time = time (view r)\<rparr>"
    using baseIngredients_terms [of _ "ingredients (view r)" "mood (view r)"]
    by (simp add: search_wf_def list_all_iff)
  with dispatch_inflight_cases [OF step.hyps(2)] step.IH show ?case
    by (auto simp: list_all_iff)
qed

lemma dispatch_meals_cases:
  assumes "dispatch api r e = Some r'"
  shows "meals (view r') = meals (view r) \<or> meals (view r') = [] \<or>
    (\<exists>p \<in> set (inflight r). fetch_pipeline api (search_terms p) (search_exclude p) (search_time p) = Inr (meals (view r')))"
  using assms
proof (cases rule: dispatch_SomeE)
  case (SearchSettles i)
  let ?p = "inflight r ! i"
  show ?thesis
  proof (cases "fetch_pipeline api (search_terms ?p) (search_exclude ?p) (search_time ?p)")
    case (Inl e)
    with SearchSettles show ?thesis by (simp add: fetchRecipes_finish_Inl)
  next
    case (Inr final)
    with SearchSettles have "meals (view r') = final" by (simp add: fetchRecipes_finish_Inr)
    with Inr SearchSettles(2) show ?thesis by (metis nth_mem)
  qed
qed simp_all

subsection \<open>Sequences of events\<close>

fun is_input_event :: "ui_event \<Rightarrow> bool" where
  "is_input_event (ChangeIngredients _) = True"
| "is_input_event (ChangeMood _) = True"
| "is_input_event (ChangeTime _) = True"
| "is_input_event (ChangeExclude _) = True"
| "is_input_event _ = False"

lemma run_append:
  "run api r (xs @ ys) = (case run api r xs of None \<Rightarrow> None | Some r' \<Rightarrow> run api r' ys)"
  by (induction xs arbitrary: r) (auto split: option.splits)

lemma run_reachable: "run api r es = Some r' \<Longrightarrow> reachable api r \<Longrightarrow> reachable api r'"
  by (induction es arbitrary: r) (auto split: option.splits intro: reachable.step)

lemma run_initial_reachable:
  "run api initial_runtime es \<noteq> None \<Longrightarrow> reachable api (the (run api initial_runtime es))"
  using run_reachable [OF _ reachable.init] by fastforce

lemma dispatch_input_event:
  "dispatch api r e = Some r' \<Longrightarrow> is_input_event e \<Longrightarrow>
   inflight r' = inflight r \<and> meals (view r') = meals (view r) \<and> error (view r') = error (view r) \<and>
   loading (view r') = loading (view r)"
  by (erule dispatch_SomeE) simp_all

lemma run_input_events:
  "list_all is_input_event es \<Longrightarrow> run api r es = Some r' \<Longrightarrow>
   inflight r' = inflight r \<and> meals (view r') = meals (view r) \<and> error (view r') = error (view r) \<and>
   loading (view r') = loading (view r)"
proof (induction es arbitrary: r)
  case Nil
  then show ?case by simp
next
  case (Cons e es)
  then obtain r1 where r1: "dispatch api r e = Some r1" and rest: "run api r1 es = Some r'"
    by (auto split: option.splits)
  from Cons.prems(1) have "is_input_event e" by simp
  from dispatch_input_event [OF r1 this] have "inflight r1 = inflight r \<and> meals (view r1) = meals (view r) \<and>
      error (view r1) = error (view r) \<and> loading (view r1) = loading (view r)" .
  with Cons.IH [of r1] Cons.prems(1) rest show ?case by simp
qed

text \<open>
  A click from an idle state, any edits of the inputs and the settling of the search: the
  result is the settling of the search captured at the click, on a state with no meal
  and no message.
\<close>

lemma run_click_edits_settle:
  assumes "reachable api r" and "\<not> loading (view r)" and "list_all is_input_event edits"
    and "run api r (ClickGetRecipes # edits @ [SearchSettles 0]) = Some r'"
  shows "\<exists>s. view r' =
             fetchRecipes_finish api
               \<lparr>search_terms = baseIngredients (ingredients (view r)) (mood (view r)),
                search_exclude = exclude (view r), search_time = time (view r)\<rparr> s \<and>
           meals s = [] \<and> error s = '''' \<and> inflight r' = []"
proof -
  let ?p = "\<lparr>search_terms = baseIngredients (ingredients (view r)) (mood (view r)),
             search_exclude = exclude (view r), search_time = time (view r)\<rparr>"
  have idle: "inflight r = []" using reachable_ui_inv [OF assms(1)] assms(2) by (simp add: ui_inv_def)
  obtain r1 where r1: "dispatch api r ClickGetRecipes = Some r1"
    and rest: "run api r1 (edits @ [SearchSettles 0]) = Some r'"
    using assms(4) by (auto split: option.splits)
  have r1_eq: "inflight r1 = [?p]" "meals (view r1) = []" "error (view r1) = ''''"
    using r1 assms(2) idle by (auto simp del: dispatch.simps simp: dispatch_ClickGetRecipes)
  from rest obtain r2 where r2: "run api r1 edits = Some r2"
    and last: "dispatch api r2 (SearchSettles 0) = Some r'"
    by (auto simp: run_append split: option.splits)
  have r2_eq: "inflight r2 = [?p]" "meals (view r2) = []" "error (view r2) = ''''"
    using run_input_events [OF assms(3) r2] r1_eq by simp_all
  with last have "r' = \<lparr>view = fetchRecipes_finish api ?p (view r2), inflight = []\<rparr>" by auto
  with r2_eq show ?thesis by auto
qed

subsection \<open>Example runs\<close>

text \<open>
  States reached from the initial one: typing two terms, clicking, settling and opening
  the second card against the example service, and a click and its settling against the
  service that rejects every request.
\<close>

definition ex_typed :: runtime where
  "ex_typed = the (run ex_service initial_runtime [ChangeIngredients ''chicken, rice''])"

definition ex_loading :: runtime where
  "ex_loading = the (run ex_service initial_runtime [ChangeIngredients ''chicken, rice'', ClickGetRecipes])"

definition ex_settled :: runtime where
  "ex_settled = the (run ex_service initial_runtime
     [ChangeIngredients ''chicken, rice'', ClickGetRecipes, SearchSettles 0])"

definition ex_selected :: runtime where
  "ex_selected = the (run ex_service initial_runtime
     [ChangeIngredients ''chicken, rice'', ClickGetRecipes, SearchSettles 0, ClickCard 1])"

definition ex_failing :: runtime where
  "ex_failing = the (run fail_service initial_runtime [ClickGetRecipes])"

definition ex_failed :: runtime where
  "ex_failed = the (run fail_service initial_runtime [ClickGetRecipes, SearchSettles 0])"

declare ex_typed_def [recipe_eval] ex_loading_def [recipe_eval] ex_settled_def [recipe_eval]
  ex_selected_def [recipe_eval] ex_failing_def [recipe_eval] ex_failed_def [recipe_eval]

lemma ex_typed_reachable: "reachable ex_service ex_typed"
  unfolding ex_typed_def by (rule run_initial_reachable) (simp add: recipe_eval)

lemma ex_loading_reachable: "reachable ex_service ex_loading"
  unfolding ex_loading_def by (rule run_initial_reachable) (simp add: recipe_eval)

lemma ex_settled_reachable: "reachable ex_service ex_settled"
  unfolding ex_settled_def by (rule run_initial_reachable) (simp add: recipe_eval)

lemma ex_selected_reachable: "reachable ex_service ex_selected"
  unfolding ex_selected_def by (rule run_initial_reachable) (simp add: recipe_eval)

lemma ex_failing_reachable: "reachable fail_service ex_failing"
  unfolding ex_failing_def by (rule run_initial_reachable) (simp add: recipe_eval)

lemma ex_failed_reachable: "reachable fail_service ex_failed"
  unfolding ex_failed_def by (rule run_initial_reachable) (simp add: recipe_eval)

lemma ex_loading_loading: "loading (view ex_loading)"
  by (simp add: recipe_eval)

end
