(* ===== verification/Render.thy ===== *)
theory Render
  imports UI
begin

text \<open>
  The markup the component returns (\<^verbatim>\<open>src/src/RecipeFinder.jsx\<close>, lines 104--232)
  as the data it shows, leaving out layout, class names and the fixed header: the
  button's label and \<^verbatim>\<open>disabled\<close> flag (lines 162--164), the error paragraph rendered
  only for a truthy message (line 167), one card per meal keyed by \<^verbatim>\<open>idMeal\<close> with
  its image and title (lines 171--180), and the popup of the selected meal (lines
  184--230): title, image, category and area, the ingredient list built from
  \<^verbatim>\<open>Array.from({length: 20}, (_, i) => i + 1)\<close> mapped to an item or \<open>null\<close> and
  filtered with \<^verbatim>\<open>filter(Boolean)\<close>, the instructions and the video link shown only
  when truthy. A JSX expression \<^verbatim>\<open>{measure && ...}\<close> renders nothing for a falsy
  measure, so an item's text is the ingredient, a space and the dash-prefixed measure
  when there is one.

  The lemmas show that the list has one item per truthy ingredient slot from 1 to 20, in
  slot order with distinct keys, and that in every reachable state of a consistent
  service the cards have distinct keys.
\<close>

definition ingredient_line :: "js_string \<Rightarrow> js_string option \<Rightarrow> js_string" where
  "ingredient_line ing measure' =
     ing @ '' '' @ (case measure' of Some m \<Rightarrow> if truthy m then ''- '' @ m else '''' | None \<Rightarrow> '''')"

definition ingredient_item :: "'a meal_detail_scheme \<Rightarrow> nat \<Rightarrow> (nat \<times> js_string) option" where
  "ingredient_item meal n =
     (let ing = strIngredient meal n; measure' = strMeasure meal n in
      case ing of
        Some s \<Rightarrow> if truthy s then Some (n, ingredient_line s measure') else None
      | None \<Rightarrow> None)"

definition ingredient_list :: "'a meal_detail_scheme \<Rightarrow> (nat \<times> js_string) list" where
  "ingredient_list meal =
     filter_Boolean (map (ingredient_item meal) (map (\<lambda>i. i + 1) [0..<20]))"

record popup_view =
  popup_title :: js_string
  popup_img :: js_string
  popup_category :: js_string
  popup_area :: js_string
  popup_ingredients :: "(nat \<times> js_string) list"
  popup_instructions :: js_string
  popup_youtube :: "js_string option"

record page =
  button_label :: js_string
  button_disabled :: bool
  error_line :: "js_string option"
  cards :: "(meal_id \<times> js_string \<times> js_string) list"
  popup :: "popup_view option"

definition render_popup :: "meal_detail \<Rightarrow> popup_view" where
  "render_popup meal =
     \<lparr>popup_title = strMeal meal, popup_img = strMealThumb meal,
      popup_category = strCategory meal, popup_area = strArea meal,
      popup_ingredients = ingredient_list meal,
      popup_instructions = strInstructions meal,
      popup_youtube = (case strYoutube meal of
                         Some y \<Rightarrow> if truthy y then Some y else None | None \<Rightarrow> None)\<rparr>"

definition render :: "ui_state \<Rightarrow> page" where
  "render s =
     \<lparr>button_label = (if loading s then ''Searching...'' else ''Get Recipes''),
      button_disabled = loading s,
      error_line = (if truthy (error s) then Some (error s) else None),
      cards = map (\<lambda>meal. (idMeal meal, strMealThumb meal, strMeal meal)) (meals s),
      popup = map_option render_popup (selectedMeal s)\<rparr>"

declare ingredient_line_def [recipe_eval] ingredient_item_def [recipe_eval]
  ingredient_list_def [recipe_eval] render_popup_def [recipe_eval] render_def [recipe_eval]

subsection \<open>The ingredient list\<close>

lemma ingredient_item_fst: "ingredient_item m n = Some x \<Longrightarrow> fst x = n"
  by (auto simp: ingredient_item_def Let_def split: option.splits if_splits)

lemma ingredient_item_Some_iff:
  "(\<exists>x. ingredient_item m n = Some x) \<longleftrightarrow> (\<exists>s. strIngredient m n = Some s \<and> truthy s)"
  by (auto simp: ingredient_item_def Let_def split: option.splits)

lemma map_Suc_upt_20: "map (\<lambda>i. i + 1) [0..<20] = [1..<21::nat]"
  using map_Suc_upt [of 0 20] by (simp only: Suc_eq_plus1 One_nat_def [symmetric]) simp

lemma map_fst_filter_Boolean:
  "(\<And>n x. f n = Some x \<Longrightarrow> fst x = n) \<Longrightarrow>
   map fst (filter_Boolean (map f ns)) = filter (\<lambda>n. f n \<noteq> None) ns"
  by (induction ns) (auto split: option.splits)

lemma map_fst_ingredient_list:
  "map fst (ingredient_list m) = filter (\<lambda>n. \<exists>s. strIngredient m n = Some s \<and> truthy s) [1..<21]"
proof -
  have "map fst (ingredient_list m) = filter (\<lambda>n. ingredient_item m n \<noteq> None) [1..<21]"
    unfolding ingredient_list_def map_Suc_upt_20
    by (rule map_fst_filter_Boolean) (rule ingredient_item_fst)
  also have "\<dots> = filter (\<lambda>n. \<exists>s. strIngredient m n = Some s \<and> truthy s) [1..<21]"
    by (simp only: not_None_eq ingredient_item_Some_iff)
  finally show ?thesis .
qed

lemma ingredient_list_lines:
  "(n, l) \<in> set (ingredient_list m) \<Longrightarrow>
   \<exists>s. strIngredient m n = Some s \<and> truthy s \<and> l = ingredient_line s (strMeasure m n)"
  by (auto simp: ingredient_list_def ingredient_item_def Let_def split: option.splits if_splits)

subsection \<open>Distinct card keys\<close>

lemma reachable_distinct_meals:
  "reachable api r \<Longrightarrow> lookup_consistent api \<Longrightarrow> distinct (map idMeal (meals (view r)))"
proof (induction rule: reachable.induct)
  case init
  then show ?case by (simp add: initial_runtime_def initial_state_def)
next
  case (step r e r')
  from dispatch_meals_cases [OF step.hyps(2)] step.IH step.prems show ?case
    using distinct_ids_fetch_pipeline by fastforce
qed

lemma map_fst_cards: "map fst (cards (render s)) = map idMeal (meals s)"
  by (simp add: render_def)

subsection \<open>Properties of the rendering\<close>

text \<open>
  C31: the popup lists one item for each ingredient slot from 1 to 20 that holds a truthy
  string, in slot order, keyed by the slot number; each item reads the ingredient, a
  space and, when the measure is truthy, \<^verbatim>\<open>- \<close> and the measure.
\<close>

theorem ingredient_list_spec:
  "map fst (ingredient_list m) = [n \<leftarrow> [1..<21]. \<exists>s. strIngredient m n = Some s \<and> s \<noteq> []] \<and>
   (\<forall>(n, l) \<in> set (ingredient_list m). \<exists>s. strIngredient m n = Some s \<and>
      l = s @ '' '' @ (case strMeasure m n of Some x \<Rightarrow> if x = [] then [] else ''- '' @ x | None \<Rightarrow> []))"
proof -
  have keys: "map fst (ingredient_list m) = [n \<leftarrow> [1..<21]. \<exists>s. strIngredient m n = Some s \<and> s \<noteq> []]"
    by (simp add: map_fst_ingredient_list truthy_def)
  have lines: "\<forall>(n, l) \<in> set (ingredient_list m). \<exists>s. strIngredient m n = Some s \<and>
      l = s @ '' '' @ (case strMeasure m n of Some x \<Rightarrow> if x = [] then [] else ''- '' @ x | None \<Rightarrow> [])"
  proof (intro ballI, clarify)
    fix n l assume "(n, l) \<in> set (ingredient_list m)"
    then obtain s where "strIngredient m n = Some s" "l = ingredient_line s (strMeasure m n)"
      using ingredient_list_lines by blast
    then show "\<exists>s. strIngredient m n = Some s \<and>
        l = s @ '' '' @ (case strMeasure m n of Some x \<Rightarrow> if x = [] then [] else ''- '' @ x | None \<Rightarrow> [])"
      by (simp add: ingredient_line_def truthy_def split: option.split)
  qed
  from keys lines show ?thesis by blast
qed

theorem ingredient_list_spec_witness:
  "ingredient_list (ex_detail ''2'' [''Chicken'', ''Rice'']) = [(1, ''Chicken ''), (2, ''Rice '')]"
  using ingredient_list_spec [of "ex_detail ''2'' [''Chicken'', ''Rice'']"]
  by (simp add: recipe_eval upt_rec)

text \<open>
  C32: against a consistent service, the cards of every reachable state have distinct
  React keys (\<^verbatim>\<open>key={meal.idMeal}\<close>): the grid is cleared at each click and filled
  only with the result of one search.
\<close>

theorem render_cards_distinct:
  "lookup_consistent api \<Longrightarrow> reachable api r \<Longrightarrow> distinct (map fst (cards (render (view r))))"
  by (simp add: map_fst_cards reachable_distinct_meals)

theorem render_cards_distinct_witness:
  "distinct (map fst (cards (render (view ex_selected))))"
  by (rule render_cards_distinct [OF ex_service_consistent ex_selected_reachable])

end
