(* ===== verification/Abstract_UI.thy ===== *)
theory Abstract_UI
  imports UI
begin

text \<open>
  An abstract specification of the component and the proof that \<open>dispatch\<close> refines
  it. The abstract state is the four inputs and a phase: idle with the shown meals, the
  message and the popup's meal, or searching with the search that was started. Its steps
  are what the component promises: inputs change to values the selects allow without
  touching the phase; a search starts only from the idle phase and is the search of the
  current inputs; a search ends in the idle phase with the result of the pipeline (or the
  failure message) and no popup; a card can be opened and the popup closed only while
  idle. The abstraction \<open>abs_of\<close> keeps the inputs and reads the phase off the searches
  in flight (idle when there is none, else searching with the first); it forgets the
  \<^verbatim>\<open>loading\<close> flag, which the invariant \<open>ui_inv\<close> ties to them, and the meals,
  message and popup while a search runs, which the invariant shows to be cleared. Every
  concrete step is an abstract step or leaves the abstraction unchanged (the click
  inside the popup).
\<close>

type_synonym ui_inputs = "js_string \<times> js_string \<times> js_string \<times> js_string"

datatype phase =
    Idle "meal_detail list" js_string "meal_detail option"
  | Searching pending_search

definition inputs_of :: "ui_state \<Rightarrow> ui_inputs" where
  "inputs_of s = (ingredients s, exclude s, mood s, time s)"

definition abs_of :: "runtime \<Rightarrow> ui_inputs \<times> phase" where
  "abs_of r =
     (inputs_of (view r),
      case inflight r of
        [] \<Rightarrow> Idle (meals (view r)) (error (view r)) (selectedMeal (view r))
      | p # _ \<Rightarrow> Searching p)"

definition valid_inputs :: "ui_inputs \<Rightarrow> bool" where
  "valid_inputs inp \<longleftrightarrow>
     (case inp of (ing, ex, md, t) \<Rightarrow> md \<in> set mood_options \<and> t \<in> set time_options)"

definition search_of :: "ui_inputs \<Rightarrow> pending_search" where
  "search_of inp =
     (case inp of (ing, ex, md, t) \<Rightarrow>
        \<lparr>search_terms = baseIngredients ing md, search_exclude = ex, search_time = t\<rparr>)"

definition settle_phase :: "service \<Rightarrow> pending_search \<Rightarrow> phase" where
  "settle_phase api p =
     (case fetch_pipeline api (search_terms p) (search_exclude p) (search_time p) of
        Inl _ \<Rightarrow> Idle [] msg_failure None
      | Inr final \<Rightarrow> Idle final (if final = [] then msg_no_results else '''') None)"

inductive abs_step :: "service \<Rightarrow> ui_inputs \<times> phase \<Rightarrow> ui_inputs \<times> phase \<Rightarrow> bool" for api where
  edit: "valid_inputs inp' \<Longrightarrow> abs_step api (inp, ph) (inp', ph)"
| start: "abs_step api (inp, Idle ms msg sel) (inp, Searching (search_of inp))"
| finish: "abs_step api (inp, Searching p) (inp, settle_phase api p)"
| select: "i < length ms \<Longrightarrow> abs_step api (inp, Idle ms msg sel) (inp, Idle ms msg (Some (ms ! i)))"
| close: "abs_step api (inp, Idle ms msg (Some m)) (inp, Idle ms msg None)"

inductive abs_reachable :: "service \<Rightarrow> ui_inputs \<times> phase \<Rightarrow> bool" for api where
  init: "abs_reachable api (('''', '''', '''', ''''), Idle [] '''' None)"
| step: "abs_reachable api a \<Longrightarrow> abs_step api a a' \<Longrightarrow> abs_reachable api a'"

subsection \<open>The abstraction of the concrete steps\<close>

lemma abs_of_idle:
  "inflight r = [] \<Longrightarrow>
   abs_of r = (inputs_of (view r), Idle (meals (view r)) (error (view r)) (selectedMeal (view r)))"
  by (simp add: abs_of_def)

lemma abs_of_searching: "inflight r = p # ps \<Longrightarrow> abs_of r = (inputs_of (view r), Searching p)"
  by (simp add: abs_of_def)

lemma abs_of_initial: "abs_of initial_runtime = (('''', '''', '''', ''''), Idle [] '''' None)"
  by (simp add: abs_of_def initial_runtime_def initial_state_def inputs_of_def)

lemma abs_step_edit_same:
  assumes "ui_inv r'" and "inflight r' = inflight r" and "meals (view r') = meals (view r)"
    and "error (view r') = error (view r)" and "selectedMeal (view r') = selectedMeal (view r)"
  shows "abs_step api (abs_of r) (abs_of r')"
proof -
  have v: "valid_inputs (inputs_of (view r'))"
    using assms(1) by (simp add: valid_inputs_def inputs_of_def ui_inv_def)
  have "abs_of r' = (inputs_of (view r'), snd (abs_of r))"
    using assms(2-5) by (simp add: abs_of_def split: list.split)
  then show ?thesis
    using abs_step.edit [OF v, of api "fst (abs_of r)" "snd (abs_of r)"] by simp
qed

lemma abs_step_settle:
  assumes inv: "ui_inv r" and i: "i < length (inflight r)"
  shows "abs_step api (abs_of r)
           (abs_of \<lparr>view = fetchRecipes_finish api (inflight r ! i) (view r),
                    inflight = take i (inflight r) @ drop (Suc i) (inflight r)\<rparr>)"
proof -
  from inv i obtain p where one: "inflight r = [p]" and i0: "i = 0"
    by (cases "inflight r") (auto simp: ui_inv_def)
  with inv have clear: "meals (view r) = []" "selectedMeal (view r) = None" "error (view r) = ''''"
    by (auto simp: ui_inv_def)
  have inp: "inputs_of (fetchRecipes_finish api p (view r)) = inputs_of (view r)"
    using fetchRecipes_finish_fields [of api p "view r"] by (simp add: inputs_of_def)
  have "Idle (meals (fetchRecipes_finish api p (view r))) (error (fetchRecipes_finish api p (view r)))
          (selectedMeal (fetchRecipes_finish api p (view r))) = settle_phase api p"
    using clear fetchRecipes_finish_fields [of api p "view r"]
      fetchRecipes_finish_Inl [of api p _ "view r"] fetchRecipes_finish_Inr [of api p _ "view r"]
    by (cases "fetch_pipeline api (search_terms p) (search_exclude p) (search_time p)")
      (simp_all add: settle_phase_def)
  with one i0 inp show ?thesis
    by (simp add: abs_of_def abs_step.finish [of api "inputs_of (view r)" p, simplified])
qed

lemma ui_inv_idle:
  "ui_inv r \<Longrightarrow> meals (view r) \<noteq> [] \<or> selectedMeal (view r) \<noteq> None \<Longrightarrow> inflight r = []"
  by (auto simp: ui_inv_def)

lemma abs_step_click:
  assumes inv: "ui_inv r" and idle: "\<not> loading (view r)"
  shows "abs_step api (abs_of r)
           (abs_of \<lparr>view = (view r)\<lparr>loading := True, error := '''', meals := [], selectedMeal := None\<rparr>,
                    inflight = inflight r @
                      [\<lparr>search_terms = baseIngredients (ingredients (view r)) (mood (view r)),
                        search_exclude = exclude (view r), search_time = time (view r)\<rparr>]\<rparr>)"
proof -
  from inv idle have "inflight r = []" by (simp add: ui_inv_def)
  then show ?thesis
    using abs_step.start [of api "inputs_of (view r)" "meals (view r)" "error (view r)" "selectedMeal (view r)"]
    by (simp add: abs_of_def inputs_of_def search_of_def)
qed

lemma abs_step_dispatch:
  assumes inv: "ui_inv r" and d: "dispatch api r e = Some r'"
  shows "abs_step api (abs_of r) (abs_of r') \<or> abs_of r' = abs_of r"
  using d
proof (cases rule: dispatch_SomeE)
  case ClickGetRecipes
  with inv show ?thesis by (simp add: abs_step_click)
next
  case (ClickCard i)
  with inv have "inflight r = []" by (intro ui_inv_idle) auto
  with ClickCard show ?thesis by (simp add: abs_of_def inputs_of_def abs_step.select)
next
  case (ClosePopup m)
  with inv have "inflight r = []" by (intro ui_inv_idle) auto
  with ClosePopup show ?thesis by (simp add: abs_of_def inputs_of_def abs_step.close)
next
  case ClickPopupContent
  then show ?thesis by simp
next
  case (SearchSettles i)
  with inv show ?thesis by (simp add: abs_step_settle)
qed (use ui_inv_dispatch [OF inv d] in \<open>auto intro: abs_step_edit_same\<close>)

text \<open>
  C30: the component refines its abstract specification: every reachable state abstracts
  to a reachable state of the abstract machine, and every step from it is a step of the
  abstract machine on the abstraction or leaves the abstraction unchanged.
\<close>

theorem dispatch_refines:
  "reachable api r \<Longrightarrow>
   abs_reachable api (abs_of r) \<and>
   (\<forall>e r'. dispatch api r e = Some r' \<longrightarrow> abs_step api (abs_of r) (abs_of r') \<or> abs_of r' = abs_of r)"
proof (induction rule: reachable.induct)
  case init
  show ?case
    using abs_step_dispatch [OF ui_inv_initial] by (simp add: abs_of_initial abs_reachable.init)
next
  case (step r e r')
  have "ui_inv r'" using step.hyps(1,2) by (blast intro: reachable.step reachable_ui_inv)
  moreover have "abs_reachable api (abs_of r')"
    using step.IH step.hyps(2) by (metis abs_reachable.step)
  ultimately show ?case using abs_step_dispatch by blast
qed

theorem dispatch_refines_witness:
  "abs_reachable ex_service (abs_of ex_loading) \<and>
   abs_step ex_service (abs_of ex_loading) (abs_of (the (dispatch ex_service ex_loading (SearchSettles 0))))"
proof -
  have "dispatch ex_service ex_loading (SearchSettles 0) \<noteq> None" by (simp add: recipe_eval)
  then obtain r' where d: "dispatch ex_service ex_loading (SearchSettles 0) = Some r'" by blast
  from d have idle: "inflight r' = []" by (auto simp: recipe_eval)
  have "inflight ex_loading \<noteq> []" by (simp add: recipe_eval)
  then obtain p ps where "inflight ex_loading = p # ps" by (cases "inflight ex_loading") auto
  with idle have "abs_of r' \<noteq> abs_of ex_loading" by (simp add: abs_of_def)
  moreover note dispatch_refines [OF ex_loading_reachable]
  ultimately have "abs_reachable ex_service (abs_of ex_loading)"
    and "abs_step ex_service (abs_of ex_loading) (abs_of r')"
    using d by blast+
  then show ?thesis by (simp only: d option.sel)
qed

end
