(* ===== verification/UI_Properties.thy ===== *)
theory UI_Properties
  imports UI
begin

text \<open>
  The properties of the component, proved over the reachable states of \<open>UI\<close> with
  the invariant \<open>ui_inv\<close>, the elimination rule \<open>dispatch_SomeE\<close> and the lemmas
  on sequences of events: one search at a time, what is shown while loading, the popup,
  the messages, the settling of a search (failure, success, captured inputs, progress),
  the click, the well-formedness of searches in flight and where the shown meals come
  from. Each is applied in a witness to one of the example runs of \<open>UI\<close>.
\<close>

subsection \<open>Properties of the component\<close>

text \<open>
  C18: at most one search is ever in flight, and exactly while \<^verbatim>\<open>loading\<close> is set:
  the \<^verbatim>\<open>disabled={loading}\<close> button rules out the overlapping searches whose
  last-to-finish race the concurrency notes of the spec describe.
\<close>

theorem reachable_single_search:
  "reachable api r \<Longrightarrow> length (inflight r) \<le> 1 \<and> (loading (view r) \<longleftrightarrow> inflight r \<noteq> [])"
  by (auto simp: ui_inv_def dest!: reachable_ui_inv)

theorem reachable_single_search_witness:
  "length (inflight ex_loading) \<le> 1 \<and> (loading (view ex_loading) \<longleftrightarrow> inflight ex_loading \<noteq> [])"
  by (rule reachable_single_search [OF ex_loading_reachable])

text \<open>
  C19: while a search is loading, the component shows no meal, no popup and no message:
  the click cleared them, and nothing sets them before the search settles.
\<close>

theorem reachable_loading_clear:
  "reachable api r \<Longrightarrow> loading (view r) \<Longrightarrow>
   meals (view r) = [] \<and> selectedMeal (view r) = None \<and> error (view r) = ''''"
  by (auto simp: ui_inv_def dest!: reachable_ui_inv)

theorem reachable_loading_clear_witness:
  "meals (view ex_loading) = [] \<and> selectedMeal (view ex_loading) = None \<and> error (view ex_loading) = ''''"
  by (rule reachable_loading_clear [OF ex_loading_reachable ex_loading_loading])

text \<open>C20: the meal shown in the popup is always one of the meals of the grid.\<close>

theorem reachable_selected:
  "reachable api r \<Longrightarrow> selectedMeal (view r) = Some m \<Longrightarrow> m \<in> set (meals (view r))"
  by (auto simp: ui_inv_def dest!: reachable_ui_inv)

theorem reachable_selected_witness:
  "ex_detail ''2'' [''Chicken'', ''Rice''] \<in> set (meals (view ex_selected))"
  by (rule reachable_selected [OF ex_selected_reachable]) (simp add: recipe_eval)

text \<open>
  C21: the message shown is empty, the no-result message or the failure message; the
  message of the empty-term guard (\<^verbatim>\<open>Please enter at least one ingredient...\<close>) is
  never shown, since the resolver always yields a term.
\<close>

theorem reachable_messages:
  "reachable api r \<Longrightarrow> error (view r) \<in> {'''', msg_no_results, msg_failure}"
  by (auto simp: ui_inv_def dest!: reachable_ui_inv)

theorem reachable_messages_witness:
  "error (view ex_failed) \<in> {'''', msg_no_results, msg_failure}"
  by (rule reachable_messages [OF ex_failed_reachable])

text \<open>
  C22: when the search in flight fails (any request rejects), settling it shows the
  failure message and no meal, clears \<^verbatim>\<open>loading\<close> and leaves no search in flight.
\<close>

theorem settle_failure:
  assumes "reachable api r" and "inflight r = [p]"
    and "fetch_pipeline api (search_terms p) (search_exclude p) (search_time p) = Inl e"
    and "dispatch api r (SearchSettles 0) = Some r'"
  shows "meals (view r') = [] \<and> error (view r') = msg_failure \<and> \<not> loading (view r') \<and> inflight r' = []"
proof -
  have "loading (view r)" using reachable_ui_inv [OF assms(1)] assms(2) by (simp add: ui_inv_def)
  then have "meals (view r) = []" using reachable_ui_inv [OF assms(1)] by (simp add: ui_inv_def)
  with assms(2-4) show ?thesis
    using fetchRecipes_finish_Inl fetchRecipes_finish_fields by auto
qed

theorem settle_failure_witness:
  "meals (view ex_failed) = [] \<and> error (view ex_failed) = msg_failure \<and> \<not> loading (view ex_failed) \<and>
   inflight ex_failed = []"
  by (rule settle_failure [OF ex_failing_reachable, of "\<lparr>search_terms = [''chicken''], search_exclude = '''', search_time = ''''\<rparr>" NetworkError])
    (simp_all add: recipe_eval)

text \<open>
  C23: when the search in flight succeeds, settling it shows exactly the result of the
  pipeline, the no-result message when that is empty and no message otherwise, and
  clears \<^verbatim>\<open>loading\<close>.
\<close>

theorem settle_success:
  assumes "reachable api r" and "inflight r = [p]"
    and "fetch_pipeline api (search_terms p) (search_exclude p) (search_time p) = Inr final"
    and "dispatch api r (SearchSettles 0) = Some r'"
  shows "meals (view r') = final \<and> error (view r') = (if final = [] then msg_no_results else '''') \<and>
         \<not> loading (view r') \<and> inflight r' = []"
proof -
  have "loading (view r)" using reachable_ui_inv [OF assms(1)] assms(2) by (simp add: ui_inv_def)
  then have "error (view r) = ''''" using reachable_ui_inv [OF assms(1)] by (simp add: ui_inv_def)
  with assms(2-4) show ?thesis
    using fetchRecipes_finish_Inr fetchRecipes_finish_fields by auto
qed

theorem settle_success_witness:
  "meals (view ex_settled) = [ex_detail ''1'' [''Chicken'', ''Salt''], ex_detail ''2'' [''Chicken'', ''Rice''],
     ex_detail ''3'' [''Rice'', ''Beans'']] \<and>
   error (view ex_settled) = (if [ex_detail ''1'' [''Chicken'', ''Salt''], ex_detail ''2'' [''Chicken'', ''Rice''],
     ex_detail ''3'' [''Rice'', ''Beans'']] = [] then msg_no_results else '''') \<and>
   \<not> loading (view ex_settled) \<and> inflight ex_settled = []"
  by (rule settle_success [OF ex_loading_reachable,
        of "\<lparr>search_terms = [''chicken'', ''rice''], search_exclude = '''', search_time = ''''\<rparr>"
           "[ex_detail ''1'' [''Chicken'', ''Salt''], ex_detail ''2'' [''Chicken'', ''Rice''],
             ex_detail ''3'' [''Rice'', ''Beans'']]"])
    (simp_all add: recipe_eval)

text \<open>
  C24: a search started from an idle state settles to the result for the inputs as they
  were at the click, whatever the user types into the inputs while it runs: the closure
  of \<^verbatim>\<open>fetchRecipes\<close> captured them.
\<close>

theorem search_uses_click_inputs:
  assumes "reachable api r" and "\<not> loading (view r)" and "list_all is_input_event edits"
    and "run api r (ClickGetRecipes # edits @ [SearchSettles 0]) = Some r'"
  shows "meals (view r') =
           (case fetch_pipeline api (baseIngredients (ingredients (view r)) (mood (view r)))
                   (exclude (view r)) (time (view r)) of Inl _ \<Rightarrow> [] | Inr final \<Rightarrow> final) \<and>
         \<not> loading (view r') \<and> inflight r' = []"
proof -
  obtain s where s: "view r' =
      fetchRecipes_finish api
        \<lparr>search_terms = baseIngredients (ingredients (view r)) (mood (view r)),
         search_exclude = exclude (view r), search_time = time (view r)\<rparr> s"
    and clear: "meals s = []" "inflight r' = []"
    using run_click_edits_settle [OF assms] by blast
  then show ?thesis
    using fetchRecipes_finish_fields fetchRecipes_finish_Inl fetchRecipes_finish_Inr
    by (auto split: sum.splits)
qed

theorem search_uses_click_inputs_witness:
  "meals (view (the (run ex_service ex_typed [ClickGetRecipes, ChangeIngredients ''rice'', SearchSettles 0]))) =
     (case fetch_pipeline ex_service (baseIngredients (ingredients (view ex_typed)) (mood (view ex_typed)))
             (exclude (view ex_typed)) (time (view ex_typed)) of Inl _ \<Rightarrow> [] | Inr final \<Rightarrow> final) \<and>
   \<not> loading (view (the (run ex_service ex_typed [ClickGetRecipes, ChangeIngredients ''rice'', SearchSettles 0]))) \<and>
   inflight (the (run ex_service ex_typed [ClickGetRecipes, ChangeIngredients ''rice'', SearchSettles 0])) = []"
  by (rule search_uses_click_inputs [OF ex_typed_reachable, of "[ChangeIngredients ''rice'']"])
    (simp_all add: recipe_eval)

text \<open>
  C25: against a service that answers every request, a click from an idle state, any
  edits of the inputs while the search runs, and its settling show exactly the abstract
  search \<open>search_spec\<close> of the inputs at the click (the first occurrences of the
  summaries found for the resolved terms, hydrated, filtered and capped), with the
  no-result message exactly when it is empty, and loading ended.
\<close>

theorem search_meets_spec:
  assumes "reachable api r" and "service_total api" and "\<not> loading (view r)"
    and "list_all is_input_event edits"
    and "run api r (ClickGetRecipes # edits @ [SearchSettles 0]) = Some r'"
  shows "meals (view r') =
           search_spec (found_by api) (details_by api) (baseIngredients (ingredients (view r)) (mood (view r)))
             (exclude (view r)) (time (view r)) \<and>
         error (view r') = (if meals (view r') = [] then msg_no_results else '''') \<and>
         \<not> loading (view r')"
proof -
  obtain s where s: "view r' =
      fetchRecipes_finish api
        \<lparr>search_terms = baseIngredients (ingredients (view r)) (mood (view r)),
         search_exclude = exclude (view r), search_time = time (view r)\<rparr> s"
    and clear: "error s = ''''"
    using run_click_edits_settle [OF assms(1,3,4,5)] by blast
  have "fetch_pipeline api (baseIngredients (ingredients (view r)) (mood (view r))) (exclude (view r)) (time (view r)) =
      Inr (search_spec (found_by api) (details_by api) (baseIngredients (ingredients (view r)) (mood (view r)))
             (exclude (view r)) (time (view r)))"
    using assms(2) by (simp add: fetch_pipeline_def search_spec_def promise_all_filter_total
        promise_all_lookup_total mergeMeals_def fold_mergeMeals_step)
  with s clear show ?thesis
    using fetchRecipes_finish_fields fetchRecipes_finish_Inr by simp
qed

theorem search_meets_spec_witness:
  "meals (view (the (run ex_service ex_typed [ClickGetRecipes, ChangeIngredients ''rice'', SearchSettles 0]))) =
     search_spec (found_by ex_service) (details_by ex_service)
       (baseIngredients (ingredients (view ex_typed)) (mood (view ex_typed))) (exclude (view ex_typed))
       (time (view ex_typed)) \<and>
   error (view (the (run ex_service ex_typed [ClickGetRecipes, ChangeIngredients ''rice'', SearchSettles 0]))) =
     (if meals (view (the (run ex_service ex_typed [ClickGetRecipes, ChangeIngredients ''rice'', SearchSettles 0]))) = []
      then msg_no_results else '''') \<and>
   \<not> loading (view (the (run ex_service ex_typed [ClickGetRecipes, ChangeIngredients ''rice'', SearchSettles 0])))"
  by (rule search_meets_spec [OF ex_typed_reachable ex_service_total, of "[ChangeIngredients ''rice'']"])
    (simp_all add: recipe_eval)

text \<open>
  C26: a loading component can always make progress: the search in flight can settle,
  and settling it clears \<^verbatim>\<open>loading\<close> and re-enables the button.
\<close>

theorem settle_liveness:
  "reachable api r \<Longrightarrow> loading (view r) \<Longrightarrow>
   \<exists>r'. dispatch api r (SearchSettles 0) = Some r' \<and> \<not> loading (view r') \<and> reachable api r'"
proof -
  assume reach: "reachable api r" and l: "loading (view r)"
  then have "inflight r \<noteq> []" using reachable_ui_inv [OF reach] by (simp add: ui_inv_def)
  then have d: "dispatch api r (SearchSettles 0) =
      Some \<lparr>view = fetchRecipes_finish api (inflight r ! 0) (view r), inflight = drop 1 (inflight r)\<rparr>"
    by simp
  moreover have "reachable api \<lparr>view = fetchRecipes_finish api (inflight r ! 0) (view r), inflight = drop 1 (inflight r)\<rparr>"
    using reach d by (rule reachable.step)
  ultimately show ?thesis using fetchRecipes_finish_fields by auto
qed

theorem settle_liveness_witness:
  "\<exists>r'. dispatch ex_service ex_loading (SearchSettles 0) = Some r' \<and> \<not> loading (view r') \<and>
     reachable ex_service r'"
  by (rule settle_liveness [OF ex_loading_reachable ex_loading_loading])

text \<open>
  C27: a click from an idle state always starts a search: it clears the meals, the
  popup and the message, sets \<^verbatim>\<open>loading\<close>, and leaves exactly one search in flight
  with the resolved terms and the current exclusion and time.
\<close>

theorem click_starts_search:
  "reachable api r \<Longrightarrow> \<not> loading (view r) \<Longrightarrow>
   dispatch api r ClickGetRecipes =
     Some \<lparr>view = (view r)\<lparr>loading := True, error := '''', meals := [], selectedMeal := None\<rparr>,
           inflight = [\<lparr>search_terms = baseIngredients (ingredients (view r)) (mood (view r)),
                        search_exclude = exclude (view r), search_time = time (view r)\<rparr>]\<rparr>"
  by (auto simp del: dispatch.simps simp: dispatch_ClickGetRecipes ui_inv_def dest!: reachable_ui_inv)

theorem click_starts_search_witness:
  "dispatch ex_service ex_typed ClickGetRecipes =
     Some \<lparr>view = (view ex_typed)\<lparr>loading := True, error := '''', meals := [], selectedMeal := None\<rparr>,
           inflight = [\<lparr>search_terms = [''chicken'', ''rice''], search_exclude = '''', search_time = ''''\<rparr>]\<rparr>"
proof -
  have "\<not> loading (view ex_typed)" by (simp add: recipe_eval)
  from click_starts_search [OF ex_typed_reachable this] show ?thesis by (simp add: recipe_eval)
qed

text \<open>
  C28: every search in flight in a reachable state is well-formed: the closure of
  \<^verbatim>\<open>fetchRecipes\<close> holds at least one term, each non-empty, trimmed and without a
  comma, and a time value of the select.
\<close>

theorem reachable_searches_wf: "reachable api r \<Longrightarrow> list_all search_wf (inflight r)"
  by (rule reachable_inflight_wf)

theorem reachable_searches_wf_witness:
  "list_all search_wf (inflight ex_loading) \<and> inflight ex_loading \<noteq> []"
proof -
  have "inflight ex_loading \<noteq> []" by (simp add: recipe_eval)
  with reachable_searches_wf [OF ex_loading_reachable] show ?thesis by simp
qed

text \<open>
  C29: in every reachable state the grid is empty or shows exactly what the pipeline
  returns for a well-formed search, the one captured at a click: so what C11--C14 prove
  of a successful search (no excluded ingredient, the cap, distinct identifiers, every
  meal from the service) holds of the meals the user sees.
\<close>

theorem reachable_meals_from_search:
  "reachable api r \<Longrightarrow>
   meals (view r) = [] \<or>
   (\<exists>p. search_wf p \<and> fetch_pipeline api (search_terms p) (search_exclude p) (search_time p) = Inr (meals (view r)))"
proof (induction rule: reachable.induct)
  case init
  then show ?case by (simp add: initial_runtime_def initial_state_def)
next
  case (step r e r')
  have "list_all search_wf (inflight r)" using step.hyps(1) by (rule reachable_inflight_wf)
  with dispatch_meals_cases [OF step.hyps(2)] step.IH show ?case by (auto simp: list_all_iff)
qed

theorem reachable_meals_from_search_witness:
  "meals (view ex_settled) \<noteq> [] \<and>
   (\<exists>p. search_wf p \<and>
      fetch_pipeline ex_service (search_terms p) (search_exclude p) (search_time p) = Inr (meals (view ex_settled)))"
proof -
  have "meals (view ex_settled) \<noteq> []" by (simp add: recipe_eval)
  with reachable_meals_from_search [OF ex_settled_reachable] show ?thesis by blast
qed

end
