(* ===== verification/Spec2Isabelle.thy ===== *)
theory Spec2Isabelle
  imports Render Abstract_UI UI_Properties
begin

text \<open>
  \<^bold>\<open>A verification development of the recipe finder.\<close>

  The program is one React component, \<^verbatim>\<open>src/src/RecipeFinder.jsx\<close>. Its state is
  eight \<^verbatim>\<open>useState\<close> hooks (ingredients, exclude, mood, time, meals, loading, error,
  selectedMeal). Its one non-trivial handler, \<^verbatim>\<open>fetchRecipes\<close> (lines 34--100),
  resolves search terms from the ingredient text or the mood, fetches one summary list
  per term from the recipe service (TheMealDB \<^verbatim>\<open>filter.php\<close>), merges them without
  duplicate identifiers (\<^verbatim>\<open>mergeMeals\<close>, lines 21--32), fetches one detail record per
  meal (\<^verbatim>\<open>lookup.php\<close>), drops the meals whose ingredients contain the exclusion text,
  caps the list by the cooking-time selection and stores the result; the markup (lines
  104--232) renders the state, with a popup for the selected meal.

  \<^bold>\<open>Theories\<close>, each importing the ones it calls.
  \<^item> \<open>Prelude\<close>: type names, JavaScript truthiness (\<open>truthy\<close>, \<open>js_or\<close> for
    \<^verbatim>\<open>||\<close>, \<open>filter_Boolean\<close>), the collection \<open>recipe_eval\<close> of definitions and
    rewrite rules that evaluate the model on concrete inputs by \<open>simp\<close>, shared list
    lemmas.
  \<^item> \<open>JS_Builtins\<close>: the ECMAScript built-ins the handler calls (\<^verbatim>\<open>split\<close>,
    \<^verbatim>\<open>trim\<close>, \<^verbatim>\<open>toLowerCase\<close>, \<^verbatim>\<open>includes\<close>, \<^verbatim>\<open>encodeURIComponent\<close>,
    \<^verbatim>\<open>Promise.all\<close>), with a \<open>js_join\<close> to state the split's round trip, the
    percent-decoding a server applies, and their lemmas (split/join and
    encode/decode round trips, \<open>includes\<close> as \<open>sublist\<close>, idempotence of trim
    and lower-casing, \<open>Promise.all\<close> rejecting with the first rejection).
  \<^item> \<open>Meals\<close>: the summary and detail records of the service and \<^verbatim>\<open>mergeMeals\<close>
    as a \<open>fold\<close> of its loop body over \<^verbatim>\<open>arrays.flat()\<close>, proved equal to the
    specification \<open>first_occurrences\<close> (C1) and from it: distinct identifiers (C2),
    no identifier lost, encounter order and first occurrence kept (C3).
  \<^item> \<open>Resolver\<close>: \<^verbatim>\<open>moodMapping\<close>, \<^verbatim>\<open>inputList\<close> and
    \<^verbatim>\<open>baseIngredients\<close> (lines 14--19, 35--41): the typed terms come back trimmed,
    in order and with their repetitions (C4), the mood's term (C5) or
    \<^verbatim>\<open>chicken\<close> (C6) when no term is typed, never an empty list (C7).
  \<^item> \<open>Filters\<close>: the exclusion callback's 20-slot \<^verbatim>\<open>for\<close> loop as a
    terminating \<^theory_text>\<open>function\<close> on the slot index (measure \<open>21 - i\<close>), the
    exclusion filter and the time cap (lines 77--90). The loop is "no slot matches"
    (C8); the filter is a case-insensitive substring test with the exclusion text as
    typed, untrimmed (C9).
  \<^item> \<open>Api\<close>: the service as an oracle from URL to settled response, the request
    URLs, the two mappers and \<open>fetch_pipeline\<close>, the \<^verbatim>\<open>try\<close> block as a value of
    \<open>fetch_error + meal_detail list\<close> (lines 53--90); failure (C10), exclusion (C11),
    the time cap (C12), distinct keys (C13), provenance from the service's answers (C14),
    refinement of the abstract search \<open>search_spec\<close> (C15), the URL round trip (C16)
    and the unencoded lookup, which no identifier holding \<^verbatim>\<open>&\<close> or
    \<^verbatim>\<open>#\<close> survives (C17); an example service and a failing one.
  \<^item> \<open>UI\<close>: the hook state, the searches in flight, \<open>dispatch\<close> for each event
    (input edits through the select options, the click with the \<^verbatim>\<open>disabled\<close> guard,
    the settling of a search, card clicks, popup close, the click inside the popup that
    \<^verbatim>\<open>stopPropagation\<close> keeps from the overlay) with its elimination rule
    \<open>dispatch_SomeE\<close>, \<open>run\<close> over event lists and \<open>reachable\<close> as an inductive
    set; the invariant \<open>ui_inv\<close> by rule induction, the well-formedness
    \<open>search_wf\<close> of searches in flight, and the example runs.
  \<^item> \<open>UI_Properties\<close>: the properties of the component over its reachable states,
    C18--C27, among them the end-to-end functional correctness of a click, edits and
    the settling against the abstract search \<open>search_spec\<close> (C25); every search in
    flight is well-formed (C28); the grid shows nothing or the result of one
    well-formed search (C29).
  \<^item> \<open>Abstract_UI\<close>: an abstract machine of inputs and an idle/searching phase with
    five kinds of step (edit, start, finish, select, close), the abstraction
    \<open>abs_of\<close> of the concrete state, and the simulation: every concrete step is an
    abstract step or a stutter, and reachable states abstract to reachable ones (C30).
  \<^item> \<open>Render\<close>: what the markup shows (button, message, cards, popup and its
    ingredient list) as a function of the state: the popup's list (C31) and distinct
    card keys in every reachable state (C32).

  \<^bold>\<open>How the code maps.\<close> A JavaScript string is a \<open>string\<close> holding its text in
  UTF-8; \<^verbatim>\<open>trim\<close> and \<^verbatim>\<open>toLowerCase\<close> act on its ASCII characters (the code's
  literals and the service's data in the examples are ASCII, apart from the en dash of
  the time option, which is compared only for equality). \<^verbatim>\<open>null\<close>/\<^verbatim>\<open>undefined\<close>
  fields are \<open>None\<close>. An awaited request is the value the service gives for the URL; a
  rejected \<^verbatim>\<open>fetch\<close> or \<^verbatim>\<open>json()\<close> is an \<open>Inl\<close>. The asynchronous handler is
  split at its first \<^verbatim>\<open>await\<close>: the click runs lines 35--51 and leaves a search in
  flight; the settling runs lines 53--99 as one step, since React batches the state
  writes made after the awaits. The only loop with a bound is the 20-slot loop, which
  the measure \<open>21 - i\<close> proves terminating; every other loop is structural recursion over a finite list, so no fuel
  is needed. \<^verbatim>\<open>Promise.all\<close> rejects with the rejection that happens first in
  time; the model takes the first in list order, which is the same outcome for the
  component, since the \<^verbatim>\<open>catch\<close> ignores the error value.

  \<^bold>\<open>Not modelled.\<close> The style sheet, the images and the header markup (layout
  only); \<^verbatim>\<open>console.error\<close> (logging); the service's JSON beyond the \<^verbatim>\<open>meals\<close>
  field being \<open>null\<close> or an array of records of the expected shape; HTTP status codes
  (the code ignores them: \<^verbatim>\<open>res.json()\<close> is read whatever the status); non-ASCII
  white space and case mapping in \<^verbatim>\<open>trim\<close>/\<^verbatim>\<open>toLowerCase\<close>, and lone surrogates in
  \<^verbatim>\<open>encodeURIComponent\<close>; inherited object properties of \<^verbatim>\<open>moodMapping\<close>
  (\<^verbatim>\<open>moodMapping["constructor"]\<close> is truthy in JavaScript, but the select only
  delivers its five option values, which the model enforces). Of the markup, the static
  header text, class names, placeholders and option labels are constant and carry no
  behaviour; everything else of the file is modelled, so nothing more of the program can
  be added faithfully without modelling the browser itself (layout, image loading).
\<close>

end
